theory Spec2Isabelle
  imports Main "HOL-Library.Multiset"
begin

section \<open>The export conversion pipeline of lib/export.py\<close>

text \<open>
  A shallow embedding of \<^verbatim>\<open>lib/export.py\<close>: the conversion engine
  (\<^verbatim>\<open>ConvertValuesWithMetadata\<close>, \<^verbatim>\<open>ConvertValues\<close>), the converter base class and
  the converters the properties below are about.

  Conventions.
  \<^item> A Python exception is a value of \<open>error\<close>; a call that can raise returns
    \<open>error + 'a\<close> (\<open>Inl\<close> the exception).
  \<^item> A Python iterable that is consumed by a \<^verbatim>\<open>for\<close> loop is the pair of what it
    yields and how the iteration ends: \<open>(ys, None)\<close> yields \<open>ys\<close> and stops,
    \<open>(ys, Some e)\<close> yields \<open>ys\<close> and then raises \<open>e\<close>. A list is \<open>(ys, None)\<close>.
  \<^item> Calling a generator function runs none of its body: the call returns at once and
    every exception of the body is raised while the result is iterated.
  \<^item> A \<^verbatim>\<open>dict\<close> is an association list in order of first insertion.
  \<^item> The security token is passed through unchanged and only reaches the object store,
    so the store is taken as already bound to the token.
\<close>

subsection \<open>Data\<close>

type_synonym urn = string

record ExportOptions =
  export_files_hashes :: bool
  export_files_contents :: bool

text \<open>\<^verbatim>\<open>rdfvalue.ExportOptions()\<close>: every flag unset.\<close>

definition default_ExportOptions :: ExportOptions where
  "default_ExportOptions = \<lparr>export_files_hashes = False, export_files_contents = False\<rparr>"

text \<open>The fields of \<^verbatim>\<open>ExportedMetadata\<close> that export.py reads or writes.\<close>

record ExportedMetadata =
  timestamp :: nat
  client_urn :: urn
  client_age :: nat
  hostname :: string
  os :: string
  uname :: string
  os_release :: string
  os_version :: string
  usernames :: string
  mac_address :: string
  labels :: string
  source_urn :: urn

text \<open>
  What \<^verbatim>\<open>DataBlob.GetValue()\<close> returns for registry data: a byte string, a unicode
  string (its code points) or an integer.
\<close>

datatype py_value = PyStr string | PyUnicode "nat list" | PyInt int

text \<open>The \<^verbatim>\<open>st_*\<close> fields, which the file converters copy one by one.\<close>

record StatFields =
  st_mode :: nat
  st_ino :: nat
  st_dev :: nat
  st_nlink :: nat
  st_uid :: nat
  st_gid :: nat
  st_size :: nat
  st_atime :: nat
  st_mtime :: nat
  st_ctime :: nat
  st_blocks :: nat
  st_blksize :: nat
  st_rdev :: nat

text \<open>
  \<^verbatim>\<open>StatEntry\<close>. \<open>registry_type\<close> is \<open>None\<close> when \<^verbatim>\<open>HasField("registry_type")\<close> is
  false; \<open>pathspec_Basename\<close> is \<^verbatim>\<open>pathspec.Basename()\<close>.
\<close>

record StatEntry =
  aff4path :: urn
  pathspec_Basename :: string
  st :: StatFields
  symlink :: string
  registry_type :: "string option"
  registry_data :: py_value

text \<open>A \<^verbatim>\<open>FileStoreHash\<close> address with the three attributes the converter reads.\<close>

record FileStoreHash =
  hash_urn :: urn
  hash_value :: string
  fingerprint_type :: string
  hash_type :: string

text \<open>
  The runtime values the engine dispatches on. \<open>OtherV c s\<close> is a value of any other
  class \<open>c\<close> (the set of runtime types is open); \<open>s\<close> tells such values apart.
\<close>

datatype rdf_value =
    StatEntryV StatEntry
  | RDFURNV urn
  | GrrMessageV urn rdf_value
  | RDFValueCollectionV "rdf_value list"
  | FileStoreHashV FileStoreHash
  | OtherV string string

text \<open>\<^verbatim>\<open>value.__class__.__name__\<close>\<close>

fun class_name :: "rdf_value \<Rightarrow> string" where
  "class_name (StatEntryV _) = ''StatEntry''"
| "class_name (RDFURNV _) = ''RDFURN''"
| "class_name (GrrMessageV _ _) = ''GrrMessage''"
| "class_name (RDFValueCollectionV _) = ''RDFValueCollection''"
| "class_name (FileStoreHashV _) = ''FileStoreHash''"
| "class_name (OtherV c _) = c"

text \<open>
  The exceptions. \<open>NoConverterFound v\<close> is
  \<^verbatim>\<open>NoConverterFound("No converters found for value: %s" % str(v))\<close>: the message is
  kept as the value it is formatted from.
\<close>

datatype error =
    NoConverterFound rdf_value
  | NotImplementedError
  | ValueError string
  | TypeError string
  | KeyError
  | IndexError
  | AttributeError string
  | UnicodeEncodeError
  | OtherError string

record ExportedFile =
  ef_metadata :: ExportedMetadata
  ef_urn :: urn
  ef_basename :: string
  ef_st :: StatFields
  ef_symlink :: string
  hash_md5 :: "string option"
  hash_sha1 :: "string option"
  hash_sha256 :: "string option"
  pecoff_hash_md5 :: "string option"
  pecoff_hash_sha1 :: "string option"
  content :: "string option"
  content_sha256 :: "string option"

record ExportedRegistryKey =
  rk_metadata :: ExportedMetadata
  rk_urn :: urn
  rk_last_modified :: nat
  rk_type :: string
  rk_data :: "string option"

record ExportedFileStoreHash =
  fsh_metadata :: ExportedMetadata
  fsh_hash :: string
  fsh_fingerprint_type :: string
  fsh_hash_type :: string
  fsh_target_urn :: urn

text \<open>
  The output records. \<open>ExportedOther c m\<close> is an output record of any other schema
  \<open>c\<close>, carrying its metadata.
\<close>

datatype exported =
    ExportedFileV ExportedFile
  | ExportedRegistryKeyV ExportedRegistryKey
  | ExportedFileStoreHashV ExportedFileStoreHash
  | ExportedClientV ExportedMetadata
  | ExportedOther string ExportedMetadata

subsection \<open>Iterables\<close>

type_synonym 'a gen = "'a list \<times> error option"

text \<open>What a \<^verbatim>\<open>for\<close> loop over the result of a call sees.\<close>

fun iterate :: "error + 'a gen \<Rightarrow> 'a gen" where
  "iterate (Inl e) = ([], Some e)"
| "iterate (Inr g) = g"

text \<open>
  Two loops one after the other inside a generator: the second runs only when the first
  ended without an exception.
\<close>

fun gen_then :: "'a gen \<Rightarrow> 'a gen \<Rightarrow> 'a gen" where
  "gen_then (ys, Some e) g = (ys, Some e)"
| "gen_then (ys, None) (zs, r) = (ys @ zs, r)"

subsection \<open>Converters and the registry\<close>

type_synonym pairs = "(ExportedMetadata \<times> rdf_value) list"

text \<open>A converter instance, as the engine uses it: its \<^verbatim>\<open>BatchConvert\<close> method.\<close>

datatype converter = Converter (BatchConvert: "pairs \<Rightarrow> error + exported gen")

text \<open>
  A class of the registry \<^verbatim>\<open>ExportConverter.classes\<close>: its name, its
  \<^verbatim>\<open>input_rdf_type\<close> (\<open>None\<close> on the base class) and its constructor
  \<^verbatim>\<open>cls(options)\<close>.
\<close>

record converter_class =
  cls_name :: string
  input_rdf_type :: "string option"
  init :: "ExportOptions option \<Rightarrow> error + converter"

text \<open>
  \<^verbatim>\<open>ExportConverter.BatchConvert\<close>, the default: a generator over
  \<^verbatim>\<open>self.Convert(metadata, value, token)\<close> of every pair in turn.
\<close>

fun ExportConverter_BatchConvert ::
  "(ExportedMetadata \<Rightarrow> rdf_value \<Rightarrow> error + exported gen) \<Rightarrow> pairs \<Rightarrow> exported gen" where
  "ExportConverter_BatchConvert Convert [] = ([], None)"
| "ExportConverter_BatchConvert Convert ((metadata, v) # rest) =
     gen_then (iterate (Convert metadata v)) (ExportConverter_BatchConvert Convert rest)"

text \<open>\<^verbatim>\<open>ExportConverter.Convert\<close>, the base class's.\<close>

definition ExportConverter_Convert :: "ExportedMetadata \<Rightarrow> rdf_value \<Rightarrow> error + exported gen" where
  "ExportConverter_Convert metadata v = Inl NotImplementedError"

text \<open>
  \<^verbatim>\<open>ExportConverter.GetConvertersByValue\<close> with its cache
  \<^verbatim>\<open>converters_cache\<close>: a hit returns the cached list, a miss filters the registry
  and stores the result.
\<close>

definition GetConvertersByValue_cached ::
  "converter_class list \<Rightarrow> (string \<rightharpoonup> converter_class list) \<Rightarrow> rdf_value
     \<Rightarrow> converter_class list \<times> (string \<rightharpoonup> converter_class list)" where
  "GetConvertersByValue_cached classes converters_cache v =
     (case converters_cache (class_name v) of
        Some results \<Rightarrow> (results, converters_cache)
      | None \<Rightarrow>
          (let results = filter (\<lambda>cls. input_rdf_type cls = Some (class_name v)) classes
           in (results, converters_cache(class_name v \<mapsto> results))))"

text \<open>
  The cache only ever holds what the filter gives, so the engine below uses the filter.
\<close>

definition GetConvertersByValue :: "converter_class list \<Rightarrow> rdf_value \<Rightarrow> converter_class list" where
  "GetConvertersByValue classes v =
     filter (\<lambda>cls. input_rdf_type cls = Some (class_name v)) classes"

definition cache_consistent ::
  "converter_class list \<Rightarrow> (string \<rightharpoonup> converter_class list) \<Rightarrow> bool" where
  "cache_consistent classes converters_cache =
     (\<forall>n rs. converters_cache n = Some rs \<longrightarrow>
        rs = filter (\<lambda>cls. input_rdf_type cls = Some n) classes)"

subsection \<open>The engine\<close>

text \<open>
  Modelled from the spec: \<^verbatim>\<open>utils.GroupBy\<close> is not among the sources. Section 4.3:
  the input is partitioned by key, the order inside a group is that of the input, and
  the groups come in the order their keys are first seen.
\<close>

fun group_insert :: "'k \<Rightarrow> 'a \<Rightarrow> ('k \<times> 'a list) list \<Rightarrow> ('k \<times> 'a list) list" where
  "group_insert k x [] = [(k, [x])]"
| "group_insert k x ((k', xs) # rest) =
     (if k = k' then (k', xs @ [x]) # rest else (k', xs) # group_insert k x rest)"

definition GroupBy :: "'a list \<Rightarrow> ('a \<Rightarrow> 'k) \<Rightarrow> ('k \<times> 'a list) list" where
  "GroupBy items key = foldl (\<lambda>key_map item. group_insert (key item) item key_map) [] items"

text \<open>\<^verbatim>\<open>converters = [cls(options) for cls in converters_classes]\<close>\<close>

fun construct_all :: "converter_class list \<Rightarrow> ExportOptions option \<Rightarrow> error + converter list" where
  "construct_all [] options = Inr []"
| "construct_all (cls # rest) options =
     (case init cls options of
        Inl e \<Rightarrow> Inl e
      | Inr c \<Rightarrow>
          (case construct_all rest options of
             Inl e \<Rightarrow> Inl e
           | Inr cs \<Rightarrow> Inr (c # cs)))"

text \<open>
  \<^verbatim>\<open>for converter in converters: for result in converter.BatchConvert(group): yield result\<close>
\<close>

fun run_converters :: "converter list \<Rightarrow> pairs \<Rightarrow> exported gen" where
  "run_converters [] metadata_values_group = ([], None)"
| "run_converters (c # cs) metadata_values_group =
     gen_then (iterate (BatchConvert c metadata_values_group))
       (run_converters cs metadata_values_group)"

text \<open>
  The loop of \<^verbatim>\<open>ConvertValuesWithMetadata\<close> over the groups; \<open>err\<close> is
  \<^verbatim>\<open>no_converter_found_error\<close>, kept as the value the message is formatted from.
\<close>

fun convert_groups ::
  "converter_class list \<Rightarrow> ExportOptions option \<Rightarrow> (string \<times> pairs) list
     \<Rightarrow> rdf_value option \<Rightarrow> exported gen" where
  "convert_groups classes options [] err =
     (case err of None \<Rightarrow> ([], None) | Some v \<Rightarrow> ([], Some (NoConverterFound v)))"
| "convert_groups classes options ((rdf_type, metadata_values_group) # rest) err =
     (case metadata_values_group of
        [] \<Rightarrow> ([], Some IndexError)
      | (_, first_value) # _ \<Rightarrow>
          (let converters_classes = GetConvertersByValue classes first_value in
           if converters_classes = [] then
             convert_groups classes options rest (Some first_value)
           else
             (case construct_all converters_classes options of
                Inl e \<Rightarrow> ([], Some e)
              | Inr converters \<Rightarrow>
                  gen_then (run_converters converters metadata_values_group)
                    (convert_groups classes options rest err))))"

definition ConvertValuesWithMetadata ::
  "converter_class list \<Rightarrow> pairs \<Rightarrow> ExportOptions option \<Rightarrow> exported gen" where
  "ConvertValuesWithMetadata classes metadata_value_pairs options =
     convert_groups classes options
       (GroupBy metadata_value_pairs (\<lambda>pair. class_name (snd pair))) None"

definition ConvertValues ::
  "converter_class list \<Rightarrow> ExportedMetadata \<Rightarrow> rdf_value list \<Rightarrow> ExportOptions option
     \<Rightarrow> exported gen" where
  "ConvertValues classes default_metadata vals options =
     (let batch_data = map (\<lambda>obj. (default_metadata, obj)) vals
      in ConvertValuesWithMetadata classes batch_data options)"

subsection \<open>The object store and dictionaries\<close>

text \<open>
  Modelled from the spec: \<^verbatim>\<open>aff4.FACTORY.MultiOpen\<close> is not among the sources. Section 6:
  \<^verbatim>\<open>OpenMany(sequence of addresses)\<close> gives the opened objects, address by address; an
  address the store does not hold is absent from the result and is no error. An opened
  object is paired with its \<^verbatim>\<open>urn\<close>, the address it was opened at. The store is seen
  at the type its caller uses the objects at.
\<close>

definition MultiOpen :: "(urn \<rightharpoonup> 'obj) \<Rightarrow> urn list \<Rightarrow> (urn \<times> 'obj) list" where
  "MultiOpen store urns =
     concat (map (\<lambda>u. case store u of None \<Rightarrow> [] | Some fd \<Rightarrow> [(u, fd)]) urns)"

text \<open>\<^verbatim>\<open>d[k] = v\<close> and \<^verbatim>\<open>dict(pairs)\<close>: a later pair replaces the value of its key.\<close>

fun dict_set :: "'k \<Rightarrow> 'v \<Rightarrow> ('k \<times> 'v) list \<Rightarrow> ('k \<times> 'v) list" where
  "dict_set k v [] = [(k, v)]"
| "dict_set k v ((k', v') # d) =
     (if k = k' then (k', v) # d else (k', v') # dict_set k v d)"

definition dict :: "('k \<times> 'v) list \<Rightarrow> ('k \<times> 'v) list" where
  "dict kvs = foldl (\<lambda>d (k, v). dict_set k v d) [] kvs"

subsection \<open>StatEntryToExportedFileConverter\<close>

text \<open>\<^verbatim>\<open>Hash\<close>: a field is \<open>None\<close> when \<^verbatim>\<open>HasField\<close> is false.\<close>

record Hash =
  md5 :: "string option"
  sha1 :: "string option"
  sha256 :: "string option"
  pecoff_md5 :: "string option"
  pecoff_sha1 :: "string option"

text \<open>
  An opened file object: its \<^verbatim>\<open>HASH\<close> attribute and \<^verbatim>\<open>Read(n)\<close>, which is \<open>None\<close>
  when the read raises \<^verbatim>\<open>IOError\<close> or \<^verbatim>\<open>AttributeError\<close>.
\<close>

record AFF4Stream =
  HASH :: "Hash option"
  Read :: "nat \<Rightarrow> string option"

definition MAX_CONTENT_SIZE :: nat where
  "MAX_CONTENT_SIZE = 1024 * 64"

text \<open>
  \<^verbatim>\<open>ParseFileHash\<close>. \<^verbatim>\<open>ParseSignedData\<close> has an empty body, so the
  \<^verbatim>\<open>signed_data\<close> branch changes nothing.
\<close>

definition ParseFileHash :: "Hash \<Rightarrow> ExportedFile \<Rightarrow> ExportedFile" where
  "ParseFileHash hash_obj result =
     (let r1 = (case md5 hash_obj of None \<Rightarrow> result | Some h \<Rightarrow> result\<lparr>hash_md5 := Some h\<rparr>);
          r2 = (case sha1 hash_obj of None \<Rightarrow> r1 | Some h \<Rightarrow> r1\<lparr>hash_sha1 := Some h\<rparr>);
          r3 = (case sha256 hash_obj of None \<Rightarrow> r2 | Some h \<Rightarrow> r2\<lparr>hash_sha256 := Some h\<rparr>);
          r4 = (case pecoff_md5 hash_obj of None \<Rightarrow> r3
                | Some h \<Rightarrow> r3\<lparr>pecoff_hash_md5 := Some h\<rparr>);
          r5 = (case pecoff_sha1 hash_obj of None \<Rightarrow> r4
                | Some h \<Rightarrow> r4\<lparr>pecoff_hash_sha1 := Some h\<rparr>)
      in r5)"

text \<open>The constructor call \<^verbatim>\<open>ExportedFile(metadata=metadata, urn=..., ...)\<close>.\<close>

definition new_ExportedFile :: "ExportedMetadata \<Rightarrow> StatEntry \<Rightarrow> ExportedFile" where
  "new_ExportedFile metadata stat_entry =
     \<lparr>ef_metadata = metadata, ef_urn = aff4path stat_entry,
      ef_basename = pathspec_Basename stat_entry, ef_st = st stat_entry,
      ef_symlink = symlink stat_entry,
      hash_md5 = None, hash_sha1 = None, hash_sha256 = None,
      pecoff_hash_md5 = None, pecoff_hash_sha1 = None,
      content = None, content_sha256 = None\<rparr>"

text \<open>
  The body of the second loop for one pair, when hashes or contents are asked for.
  \<open>sha256_hexdigest\<close> is \<^verbatim>\<open>hashlib.sha256(_).hexdigest()\<close>.
\<close>

definition add_hashes_contents ::
  "ExportOptions \<Rightarrow> (string \<Rightarrow> string) \<Rightarrow> (urn \<times> AFF4Stream) list \<Rightarrow> StatEntry
     \<Rightarrow> ExportedFile \<Rightarrow> ExportedFile" where
  "add_hashes_contents options sha256_hexdigest fds_dict stat_entry result =
     (case map_of fds_dict (aff4path stat_entry) of
        None \<Rightarrow> result
      | Some aff4_object \<Rightarrow>
          (let r1 = (if export_files_hashes options then
                       (case HASH aff4_object of
                          None \<Rightarrow> result
                        | Some hash_obj \<Rightarrow> ParseFileHash hash_obj result)
                     else result);
               r2 = (if export_files_contents options then
                       (case Read aff4_object MAX_CONTENT_SIZE of
                          None \<Rightarrow> r1
                        | Some c \<Rightarrow>
                            r1\<lparr>content := Some c, content_sha256 := Some (sha256_hexdigest c)\<rparr>)
                     else r1)
           in r2))"

text \<open>
  \<^verbatim>\<open>StatEntryToExportedFileConverter.BatchConvert\<close>, a generator: the pairs without
  \<^verbatim>\<open>registry_type\<close> are kept, the files of all pairs are opened in one call when
  hashes or contents are asked for, and one \<^verbatim>\<open>ExportedFile\<close> is yielded per kept
  pair.
\<close>

definition StatEntryToExportedFileConverter_BatchConvert ::
  "ExportOptions \<Rightarrow> (string \<Rightarrow> string) \<Rightarrow> (urn \<rightharpoonup> AFF4Stream)
     \<Rightarrow> (ExportedMetadata \<times> StatEntry) list \<Rightarrow> exported gen" where
  "StatEntryToExportedFileConverter_BatchConvert options sha256_hexdigest store
       metadata_value_pairs =
     (let filtered_pairs =
            filter (\<lambda>(metadata, stat_entry). registry_type stat_entry = None)
              metadata_value_pairs;
          wanted = (export_files_hashes options \<or> export_files_contents options);
          aff4_paths = map (\<lambda>(metadata, stat_entry). aff4path stat_entry) metadata_value_pairs;
          fds_dict = (if wanted then dict (MultiOpen store aff4_paths) else [])
      in (map (\<lambda>(metadata, stat_entry).
                 ExportedFileV
                   (let result = new_ExportedFile metadata stat_entry
                    in if wanted then
                         add_hashes_contents options sha256_hexdigest fds_dict stat_entry result
                       else result))
            filtered_pairs,
          None))"

definition StatEntryToExportedFileConverter_Convert ::
  "ExportOptions \<Rightarrow> (string \<Rightarrow> string) \<Rightarrow> (urn \<rightharpoonup> AFF4Stream)
     \<Rightarrow> ExportedMetadata \<Rightarrow> StatEntry \<Rightarrow> error + exported gen" where
  "StatEntryToExportedFileConverter_Convert options sha256_hexdigest store metadata stat_entry =
     Inr (StatEntryToExportedFileConverter_BatchConvert options sha256_hexdigest store
            [(metadata, stat_entry)])"

subsection \<open>StatEntryToExportedRegistryKeyConverter\<close>

function string_of_nat :: "nat \<Rightarrow> string" where
  "string_of_nat n =
     (if n < 10 then [char_of (48 + n)]
      else string_of_nat (n div 10) @ [char_of (48 + n mod 10)])"
  by pat_completeness auto
termination
  by (relation "measure id") auto

text \<open>
  Python 2's \<^verbatim>\<open>str(x)\<close>: a byte string is itself, an integer is its decimal
  numeral, and a unicode string is encoded with the ASCII codec, which raises
  \<^verbatim>\<open>UnicodeEncodeError\<close> at a code point above 127.
\<close>

fun py_str :: "py_value \<Rightarrow> error + string" where
  "py_str (PyStr s) = Inr s"
| "py_str (PyUnicode cps) =
     (if list_all (\<lambda>c. c < 128) cps then Inr (map char_of cps) else Inl UnicodeEncodeError)"
| "py_str (PyInt i) =
     Inr (if i < 0 then CHR ''-'' # string_of_nat (nat (- i)) else string_of_nat (nat i))"

text \<open>
  In \<^verbatim>\<open>Convert\<close> the name \<^verbatim>\<open>stat\<close> is the module imported at the top of the file
  (\<^verbatim>\<open>import stat\<close>); the parameter is \<^verbatim>\<open>stat_entry\<close>. The standard module has no
  attribute \<^verbatim>\<open>registry_data\<close>, so reading it raises \<^verbatim>\<open>AttributeError\<close>.
\<close>

definition stat_module_registry_data :: "error + py_value" where
  "stat_module_registry_data = Inl (AttributeError ''registry_data'')"

text \<open>\<^verbatim>\<open>unicode(data).encode("utf-16be")\<close> on code points of the basic plane.\<close>

fun encode_utf_16be :: "py_value \<Rightarrow> string" where
  "encode_utf_16be (PyUnicode cps) =
     concat (map (\<lambda>c. [char_of (c div 256), char_of (c mod 256)]) cps)"
| "encode_utf_16be (PyStr s) = concat (map (\<lambda>c. [char_of (0::nat), c]) s)"
| "encode_utf_16be (PyInt i) =
     concat (map (\<lambda>c. [char_of (0::nat), c])
       (if i < 0 then CHR ''-'' # string_of_nat (nat (- i)) else string_of_nat (nat i)))"

definition StatEntryToExportedRegistryKeyConverter_Convert ::
  "ExportedMetadata \<Rightarrow> StatEntry \<Rightarrow> error + exported gen" where
  "StatEntryToExportedRegistryKeyConverter_Convert metadata stat_entry =
     (case registry_type stat_entry of
        None \<Rightarrow> Inr ([], None)
      | Some t \<Rightarrow>
          (let result = \<lparr>rk_metadata = metadata, rk_urn = aff4path stat_entry,
                         rk_last_modified = st_mtime (st stat_entry), rk_type = t,
                         rk_data = None\<rparr>
           in case py_str (registry_data stat_entry) of
                Inr data \<Rightarrow> Inr ([ExportedRegistryKeyV (result\<lparr>rk_data := Some data\<rparr>)], None)
              | Inl UnicodeEncodeError \<Rightarrow>
                  (case stat_module_registry_data of
                     Inl e \<Rightarrow> Inl e
                   | Inr data \<Rightarrow>
                       Inr ([ExportedRegistryKeyV
                               (result\<lparr>rk_data := Some (encode_utf_16be data)\<rparr>)], None))
              | Inl e \<Rightarrow> Inl e))"

subsection \<open>VolatilityResultConverter\<close>

record VolatilityResultConverter =
  vrc_options :: ExportOptions
  vrc_mapping :: "(string \<times> string) list"
  vrc_output_rdf_cls :: string

text \<open>
  \<^verbatim>\<open>VolatilityResultConverter.__init__(self)\<close>. The class attributes \<^verbatim>\<open>mapping\<close> and
  \<^verbatim>\<open>output_rdf_cls\<close> are \<open>None\<close> unless a subclass sets them; \<^verbatim>\<open>not self.mapping\<close>
  holds for \<^verbatim>\<open>None\<close> and for an empty mapping alike. The base constructor, called
  without options, sets the default options.
\<close>

definition VolatilityResultConverter_init ::
  "(string \<times> string) list option \<Rightarrow> string option \<Rightarrow> error + VolatilityResultConverter" where
  "VolatilityResultConverter_init mapping output_rdf_cls =
     (case mapping of
        None \<Rightarrow> Inl (ValueError ''Mapping not specified.'')
      | Some m \<Rightarrow>
          if m = [] then Inl (ValueError ''Mapping not specified.'')
          else
            (case output_rdf_cls of
               None \<Rightarrow> Inl (ValueError ''output_rdf_cls not specified'')
             | Some c \<Rightarrow>
                 Inr \<lparr>vrc_options = default_ExportOptions, vrc_mapping = m,
                      vrc_output_rdf_cls = c\<rparr>))"

text \<open>
  The call \<^verbatim>\<open>cls(*args)\<close> on a subclass: \<^verbatim>\<open>__init__(self)\<close> takes no argument
  besides \<^verbatim>\<open>self\<close>, so a call with one raises \<^verbatim>\<open>TypeError\<close> before the body runs.
\<close>

definition VolatilityResultConverter_call ::
  "(string \<times> string) list option \<Rightarrow> string option \<Rightarrow> ExportOptions option list
     \<Rightarrow> error + VolatilityResultConverter" where
  "VolatilityResultConverter_call mapping output_rdf_cls args =
     (if args \<noteq> [] then Inl (TypeError ''__init__() takes exactly 1 argument'')
      else VolatilityResultConverter_init mapping output_rdf_cls)"

subsection \<open>RDFURNConverter\<close>

text \<open>
  Calling a generator function: the generator object is returned and nothing is raised,
  whatever the body will raise once it is iterated.
\<close>

definition call_generator :: "'a gen \<Rightarrow> error + 'a gen" where
  "call_generator g = Inr g"

text \<open>\<^verbatim>\<open>batch.append((urns_dict[fd.urn], fd))\<close> for every opened object.\<close>

fun urn_batch :: "(urn \<times> ExportedMetadata) list \<Rightarrow> (urn \<times> rdf_value) list \<Rightarrow> error + pairs" where
  "urn_batch urns_dict [] = Inr []"
| "urn_batch urns_dict ((fd_urn, fd) # fds) =
     (case map_of urns_dict fd_urn of
        None \<Rightarrow> Inl KeyError
      | Some metadata \<Rightarrow>
          (case urn_batch urns_dict fds of
             Inl e \<Rightarrow> Inl e
           | Inr batch \<Rightarrow> Inr ((metadata, fd) # batch)))"

text \<open>
  \<^verbatim>\<open>RDFURNConverter.BatchConvert\<close>, a plain function. Its last statements are
  \<^verbatim>\<open>try: return ConvertValuesWithMetadata(batch)\<close>,
  \<^verbatim>\<open>except NoConverterFound as e: logging.info(e)\<close> and \<^verbatim>\<open>return []\<close>: the handler
  covers the call only, and the call is a call of a generator function. The recursive
  call passes neither token nor options.
\<close>

definition RDFURNConverter_BatchConvert ::
  "converter_class list \<Rightarrow> (urn \<rightharpoonup> rdf_value) \<Rightarrow> pairs \<Rightarrow> error + exported gen" where
  "RDFURNConverter_BatchConvert classes store metadata_value_pairs =
     (let urn_metadata_pairs =
            concat (map (\<lambda>(metadata, v). case v of RDFURNV u \<Rightarrow> [(u, metadata)] | _ \<Rightarrow> [])
                      metadata_value_pairs);
          urns_dict = dict urn_metadata_pairs;
          fds = MultiOpen store (map fst urns_dict)
      in case urn_batch urns_dict fds of
           Inl e \<Rightarrow> Inl e
         | Inr batch \<Rightarrow>
             (case call_generator (ConvertValuesWithMetadata classes batch None) of
                Inr g \<Rightarrow> Inr g
              | Inl (NoConverterFound v) \<Rightarrow> Inr ([], None)
              | Inl e \<Rightarrow> Inl e))"

definition RDFURNConverter_Convert ::
  "converter_class list \<Rightarrow> (urn \<rightharpoonup> rdf_value) \<Rightarrow> ExportedMetadata \<Rightarrow> rdf_value
     \<Rightarrow> error + exported gen" where
  "RDFURNConverter_Convert classes store metadata v =
     RDFURNConverter_BatchConvert classes store [(metadata, v)]"

subsection \<open>RDFValueCollectionConverter\<close>

text \<open>
  Modelled from the spec: \<^verbatim>\<open>utils.Grouper\<close> is not among the sources. Section 4.5: the
  collection is split into consecutive sub-batches of the batch size, the last one
  holding what is left.
\<close>

function Grouper :: "'a list \<Rightarrow> nat \<Rightarrow> 'a list list" where
  "Grouper xs n =
     (if n = 0 \<or> xs = [] then [] else take n xs # Grouper (drop n xs) n)"
  by pat_completeness auto
termination
  by (relation "measure (\<lambda>(xs, n). length xs)") auto

declare Grouper.simps [simp del]

definition BATCH_SIZE :: nat where
  "BATCH_SIZE = 1000"

text \<open>The loop over the sub-batches: each is converted by \<^verbatim>\<open>ConvertValues\<close> in turn.\<close>

fun convert_batches ::
  "converter_class list \<Rightarrow> ExportOptions option \<Rightarrow> ExportedMetadata \<Rightarrow> rdf_value list list
     \<Rightarrow> exported gen" where
  "convert_batches classes options metadata [] = ([], None)"
| "convert_batches classes options metadata (batch # rest) =
     gen_then (ConvertValues classes metadata batch options)
       (convert_batches classes options metadata rest)"

text \<open>
  \<^verbatim>\<open>RDFValueCollectionConverter.Convert\<close>, a generator; \<open>batch_size\<close> is
  \<^verbatim>\<open>self.BATCH_SIZE\<close> and \<open>options\<close> is \<^verbatim>\<open>self.options\<close>.
\<close>

definition RDFValueCollectionConverter_Convert ::
  "converter_class list \<Rightarrow> nat \<Rightarrow> ExportOptions \<Rightarrow> ExportedMetadata \<Rightarrow> rdf_value list
     \<Rightarrow> exported gen" where
  "RDFValueCollectionConverter_Convert classes batch_size options metadata collection =
     (if collection = [] then ([], None)
      else convert_batches classes (Some options) metadata (Grouper collection batch_size))"

subsection \<open>GrrMessageConverter\<close>

record GrrMessage =
  source :: urn
  payload :: rdf_value

text \<open>
  An opened client object: its \<^verbatim>\<open>urn.age\<close> and the attributes \<^verbatim>\<open>GetMetadata\<close> reads,
  \<open>None\<close> where the attribute is not set.
\<close>

record VFSGRRClient =
  urn_age :: nat
  HOSTNAME :: "string option"
  SYSTEM :: "string option"
  UNAME :: "string option"
  OS_RELEASE :: "string option"
  OS_VERSION :: "string option"
  USERNAMES :: "string option"
  MAC_ADDRESS :: "string option"
  CLIENT_INFO_labels :: "string list option"

text \<open>\<^verbatim>\<open>client_fd.Get(attribute, u"")\<close>\<close>

definition Get_default :: "string option \<Rightarrow> string" where
  "Get_default a = (case a of None \<Rightarrow> [] | Some s \<Rightarrow> s)"

text \<open>\<^verbatim>\<open>u",".join(labels)\<close>\<close>

fun join_comma :: "string list \<Rightarrow> string" where
  "join_comma [] = []"
| "join_comma [x] = x"
| "join_comma (x # y # ys) = x @ '','' @ join_comma (y # ys)"

text \<open>
  \<^verbatim>\<open>GetMetadata\<close> of an opened client object (given an address it opens the object
  first); \<open>now\<close> is \<^verbatim>\<open>RDFDatetime().Now()\<close>. Fields that are not set keep their
  default value.
\<close>

definition GetMetadata :: "nat \<Rightarrow> urn \<times> VFSGRRClient \<Rightarrow> ExportedMetadata" where
  "GetMetadata now client =
     (case client of (client_fd_urn, client_fd) \<Rightarrow>
        \<lparr>timestamp = now, client_urn = client_fd_urn, client_age = urn_age client_fd,
         hostname = Get_default (HOSTNAME client_fd),
         os = Get_default (SYSTEM client_fd),
         uname = Get_default (UNAME client_fd),
         os_release = Get_default (OS_RELEASE client_fd),
         os_version = Get_default (OS_VERSION client_fd),
         usernames = Get_default (USERNAMES client_fd),
         mac_address = Get_default (MAC_ADDRESS client_fd),
         labels = (case CLIENT_INFO_labels client_fd of None \<Rightarrow> [] | Some ls \<Rightarrow> join_comma ls),
         source_urn = []\<rparr>)"

type_synonym message_pairs = "(ExportedMetadata \<times> GrrMessage) list"

text \<open>The grouping of the messages by \<^verbatim>\<open>msg.source\<close> into \<^verbatim>\<open>msg_dict\<close>.\<close>

definition msg_dict_of :: "message_pairs \<Rightarrow> (urn \<times> message_pairs) list" where
  "msg_dict_of metadata_value_pairs =
     foldl (\<lambda>msg_dict (metadata, msg). group_insert (source msg) (metadata, msg) msg_dict)
       [] metadata_value_pairs"

text \<open>
  The loop over the keys of \<^verbatim>\<open>msg_dict\<close>: the cached metadata objects and the
  clients still to fetch.
\<close>

fun split_cached ::
  "(urn \<rightharpoonup> ExportedMetadata) \<Rightarrow> urn list \<Rightarrow> ExportedMetadata list \<times> urn list" where
  "split_cached cached_metadata [] = ([], [])"
| "split_cached cached_metadata (c_urn # rest) =
     (case split_cached cached_metadata rest of (metadata_objects, metadata_to_fetch) \<Rightarrow>
        (case cached_metadata c_urn of
           Some m \<Rightarrow> (m # metadata_objects, metadata_to_fetch)
         | None \<Rightarrow> (metadata_objects, c_urn # metadata_to_fetch)))"

text \<open>
  The batched lookup: the fetched metadata and the cache after it. Nothing is opened
  when nothing is missing.
\<close>

definition fetch_metadata ::
  "(urn \<rightharpoonup> VFSGRRClient) \<Rightarrow> nat \<Rightarrow> (urn \<rightharpoonup> ExportedMetadata) \<Rightarrow> urn list
     \<Rightarrow> ExportedMetadata list \<times> (urn \<rightharpoonup> ExportedMetadata)" where
  "fetch_metadata store now cached_metadata metadata_to_fetch =
     (if metadata_to_fetch = [] then ([], cached_metadata)
      else
        (let client_fds = MultiOpen store metadata_to_fetch;
             fetched_metadata = map (GetMetadata now) client_fds
         in (fetched_metadata,
             foldl (\<lambda>c metadata. c(client_urn metadata \<mapsto> metadata)) cached_metadata
               fetched_metadata)))"

text \<open>
  The per-record metadata: a copy of the client's metadata with \<^verbatim>\<open>source_urn\<close> and
  \<^verbatim>\<open>timestamp\<close> taken from the metadata given with the record.
\<close>

definition new_metadata_for :: "ExportedMetadata \<Rightarrow> ExportedMetadata \<Rightarrow> ExportedMetadata" where
  "new_metadata_for metadata original_metadata =
     metadata\<lparr>source_urn := source_urn original_metadata,
              timestamp := timestamp original_metadata\<rparr>"

text \<open>
  The loop that builds \<^verbatim>\<open>batch_data\<close>; a metadata object whose client is not a key
  of \<^verbatim>\<open>msg_dict\<close> raises \<^verbatim>\<open>KeyError\<close>, which is passed over.
\<close>

definition batch_data_of ::
  "ExportedMetadata list \<Rightarrow> (urn \<times> message_pairs) list \<Rightarrow> pairs" where
  "batch_data_of metadata_objects msg_dict =
     concat (map (\<lambda>metadata.
                    case map_of msg_dict (client_urn metadata) of
                      None \<Rightarrow> []
                    | Some msgs \<Rightarrow>
                        map (\<lambda>(original_metadata, message).
                               (new_metadata_for metadata original_metadata, payload message))
                          msgs)
               metadata_objects)"

text \<open>
  Everything of \<^verbatim>\<open>BatchConvert\<close> between the construction of the converters and their
  use: \<^verbatim>\<open>batch_data\<close> and the cache after the call.
\<close>

definition GrrMessageConverter_batch_data ::
  "(urn \<rightharpoonup> VFSGRRClient) \<Rightarrow> nat \<Rightarrow> (urn \<rightharpoonup> ExportedMetadata) \<Rightarrow> message_pairs
     \<Rightarrow> pairs \<times> (urn \<rightharpoonup> ExportedMetadata)" where
  "GrrMessageConverter_batch_data store now cached_metadata metadata_value_pairs =
     (let msg_dict = msg_dict_of metadata_value_pairs
      in case split_cached cached_metadata (map fst msg_dict) of
           (metadata_objects, metadata_to_fetch) \<Rightarrow>
             (case fetch_metadata store now cached_metadata metadata_to_fetch of
                (fetched_metadata, cached_metadata') \<Rightarrow>
                  (batch_data_of (metadata_objects @ fetched_metadata) msg_dict,
                   cached_metadata')))"



text \<open>The cache as the converter keeps it: a client's metadata under the client's address.\<close>

definition cached_metadata_ok :: "(urn \<rightharpoonup> ExportedMetadata) \<Rightarrow> bool" where
  "cached_metadata_ok cached_metadata =
     (\<forall>k m. cached_metadata k = Some m \<longrightarrow> client_urn m = k)"

subsection \<open>FileStoreHashConverter\<close>

text \<open>
  The hits of one hash: a copy of the metadata with \<^verbatim>\<open>client_urn\<close> set to
  \<^verbatim>\<open>RDFURN(hit).Split(2)[0]\<close>. \<open>Split\<close> is \<^verbatim>\<open>RDFURN.Split\<close>, which is not among the
  sources and is a parameter; an empty result has no element \<^verbatim>\<open>[0]\<close>.
\<close>

fun hash_hits_results ::
  "(urn \<Rightarrow> nat \<Rightarrow> string list) \<Rightarrow> ExportedMetadata \<Rightarrow> FileStoreHash \<Rightarrow> urn list
     \<Rightarrow> error + exported list" where
  "hash_hits_results Split md h [] = Inr []"
| "hash_hits_results Split md h (hit # hits) =
     (case Split hit 2 of
        [] \<Rightarrow> Inl IndexError
      | c # _ \<Rightarrow>
          (case hash_hits_results Split md h hits of
             Inl e \<Rightarrow> Inl e
           | Inr rs \<Rightarrow>
               Inr (ExportedFileStoreHashV
                      \<lparr>fsh_metadata = md\<lparr>client_urn := c\<rparr>, fsh_hash = hash_value h,
                       fsh_fingerprint_type = fingerprint_type h,
                       fsh_hash_type = hash_type h, fsh_target_urn = hit\<rparr> # rs)))"

fun all_hits_results ::
  "(urn \<Rightarrow> nat \<Rightarrow> string list) \<Rightarrow> (FileStoreHash \<times> ExportedMetadata) list
     \<Rightarrow> (FileStoreHash \<times> urn list) list \<Rightarrow> error + exported list" where
  "all_hits_results Split urns_dict [] = Inr []"
| "all_hits_results Split urns_dict ((h, hash_hits) # rest) =
     (if hash_hits = [] then all_hits_results Split urns_dict rest
      else
        (case map_of urns_dict h of
           None \<Rightarrow> Inl KeyError
         | Some md \<Rightarrow>
             (case hash_hits_results Split md h hash_hits of
                Inl e \<Rightarrow> Inl e
              | Inr rs \<Rightarrow>
                  (case all_hits_results Split urns_dict rest of
                     Inl e \<Rightarrow> Inl e
                   | Inr rs' \<Rightarrow> Inr (rs @ rs')))))"

text \<open>
  \<^verbatim>\<open>FileStoreHashConverter.BatchConvert\<close>. \<open>GetHitsForHashes\<close> is
  \<^verbatim>\<open>filestore.HashFileStore.GetHitsForHashes\<close>, the hash index of section 6, a
  parameter.
\<close>

definition FileStoreHashConverter_BatchConvert ::
  "(FileStoreHash list \<Rightarrow> (FileStoreHash \<times> urn list) list) \<Rightarrow> (urn \<Rightarrow> nat \<Rightarrow> string list)
     \<Rightarrow> (ExportedMetadata \<times> FileStoreHash) list \<Rightarrow> error + exported list" where
  "FileStoreHashConverter_BatchConvert GetHitsForHashes Split metadata_value_pairs =
     (let urns = map snd metadata_value_pairs;
          urns_dict = dict (map (\<lambda>(metadata, u). (u, metadata)) metadata_value_pairs)
      in all_hits_results Split urns_dict (GetHitsForHashes urns))"

subsection \<open>Converter classes as the registry holds them\<close>

text \<open>\<^verbatim>\<open>self.options = options or rdfvalue.ExportOptions()\<close>\<close>

definition options_or_default :: "ExportOptions option \<Rightarrow> ExportOptions" where
  "options_or_default options = (case options of None \<Rightarrow> default_ExportOptions | Some opts \<Rightarrow> opts)"

text \<open>
  A converter for \<^verbatim>\<open>StatEntry\<close> reads \<^verbatim>\<open>stat_entry.HasField\<close> first; a value of
  another class has no such attribute.
\<close>

fun as_StatEntry_pairs :: "pairs \<Rightarrow> error + (ExportedMetadata \<times> StatEntry) list" where
  "as_StatEntry_pairs [] = Inr []"
| "as_StatEntry_pairs ((metadata, StatEntryV stat_entry) # rest) =
     (case as_StatEntry_pairs rest of
        Inl e \<Rightarrow> Inl e
      | Inr ps \<Rightarrow> Inr ((metadata, stat_entry) # ps))"
| "as_StatEntry_pairs ((metadata, _) # rest) = Inl (AttributeError ''HasField'')"

definition StatEntryToExportedFileConverter_class ::
  "(string \<Rightarrow> string) \<Rightarrow> (urn \<rightharpoonup> AFF4Stream) \<Rightarrow> converter_class" where
  "StatEntryToExportedFileConverter_class sha256_hexdigest store =
     \<lparr>cls_name = ''StatEntryToExportedFileConverter'',
      input_rdf_type = Some ''StatEntry'',
      init = (\<lambda>options. Inr (Converter (\<lambda>metadata_value_pairs.
                Inr (case as_StatEntry_pairs metadata_value_pairs of
                       Inl e \<Rightarrow> ([], Some e)
                     | Inr ps \<Rightarrow>
                         StatEntryToExportedFileConverter_BatchConvert
                           (options_or_default options) sha256_hexdigest store ps))))\<rparr>"

definition StatEntryToExportedRegistryKeyConverter_class :: converter_class where
  "StatEntryToExportedRegistryKeyConverter_class =
     \<lparr>cls_name = ''StatEntryToExportedRegistryKeyConverter'',
      input_rdf_type = Some ''StatEntry'',
      init = (\<lambda>options. Inr (Converter (\<lambda>metadata_value_pairs.
                Inr (ExportConverter_BatchConvert
                       (\<lambda>metadata v.
                          case v of
                            StatEntryV stat_entry \<Rightarrow>
                              StatEntryToExportedRegistryKeyConverter_Convert metadata stat_entry
                          | _ \<Rightarrow> Inl (AttributeError ''HasField''))
                       metadata_value_pairs))))\<rparr>"

text \<open>
  \<^verbatim>\<open>ClientSummaryToExportedClientConverter\<close>: \<^verbatim>\<open>Convert\<close> returns
  \<^verbatim>\<open>[ExportedClient(metadata=metadata)]\<close> and the batch conversion is the default.
\<close>

definition ClientSummaryToExportedClientConverter_Convert ::
  "ExportedMetadata \<Rightarrow> rdf_value \<Rightarrow> error + exported gen" where
  "ClientSummaryToExportedClientConverter_Convert metadata unused_client_summary =
     Inr ([ExportedClientV metadata], None)"

definition ClientSummaryToExportedClientConverter_class :: converter_class where
  "ClientSummaryToExportedClientConverter_class =
     \<lparr>cls_name = ''ClientSummaryToExportedClientConverter'',
      input_rdf_type = Some ''ClientSummary'',
      init = (\<lambda>options. Inr (Converter (\<lambda>metadata_value_pairs.
                Inr (ExportConverter_BatchConvert
                       ClientSummaryToExportedClientConverter_Convert
                       metadata_value_pairs))))\<rparr>"


subsection \<open>Vocabulary of the properties\<close>

text \<open>A group of the engine's loop has no converter for its first value.\<close>

definition unmatched :: "converter_class list \<Rightarrow> string \<times> pairs \<Rightarrow> bool" where
  "unmatched classes g =
     (case snd g of [] \<Rightarrow> False | (_, first_value) # _ \<Rightarrow>
        GetConvertersByValue classes first_value = [])"

text \<open>
  What the converters of one group yield and how they end: the converters of the
  group's first value are constructed and run on the group one after the other.
\<close>

definition group_result ::
  "converter_class list \<Rightarrow> ExportOptions option \<Rightarrow> string \<times> pairs \<Rightarrow> exported gen" where
  "group_result classes options g =
     (case snd g of
        [] \<Rightarrow> ([], Some IndexError)
      | (_, first_value) # _ \<Rightarrow>
          (case construct_all (GetConvertersByValue classes first_value) options of
             Inl e \<Rightarrow> ([], Some e)
           | Inr converters \<Rightarrow> run_converters converters (snd g)))"



text \<open>
  A dictionary of lists \<open>d\<close> groups \<open>xs\<close> by \<open>key\<close>: its keys are the keys of \<open>xs\<close>,
  each once, and the list under a key holds the elements with that key in their order.
\<close>

definition grouped :: "('a \<Rightarrow> 'k) \<Rightarrow> ('k \<times> 'a list) list \<Rightarrow> 'a list \<Rightarrow> bool" where
  "grouped key d xs \<longleftrightarrow>
     distinct (map fst d) \<and> set (map fst d) = key ` set xs \<and>
     (\<forall>k \<in> key ` set xs. map_of d k = Some (filter (\<lambda>x. key x = k) xs))"

text \<open>
  A record of a \<^verbatim>\<open>GrrMessage\<close> batch is resolved when its source has metadata in the
  cache after the lookup; \<open>enrich\<close> is the pair a resolved record is converted as.
\<close>

definition resolved :: "(urn \<rightharpoonup> ExportedMetadata) \<Rightarrow> ExportedMetadata \<times> GrrMessage \<Rightarrow> bool" where
  "resolved cached_metadata' p = (cached_metadata' (source (snd p)) \<noteq> None)"

definition enrich ::
  "(urn \<rightharpoonup> ExportedMetadata) \<Rightarrow> ExportedMetadata \<times> GrrMessage \<Rightarrow> ExportedMetadata \<times> rdf_value" where
  "enrich cached_metadata' p =
     (case p of (original_metadata, message) \<Rightarrow>
        (case cached_metadata' (source message) of
           None \<Rightarrow> (original_metadata, payload message)
         | Some metadata \<Rightarrow> (new_metadata_for metadata original_metadata, payload message)))"

text \<open>
  A converter works record by record on a set of pairs when, on every batch of pairs
  from the set, its batch conversion does not raise and yields, pair after pair, what it
  yields on the pair alone. A pair is convertible among a set of pairs when its value has
  a converter and every class registered for the value is constructed without an
  exception and works record by record on the pairs of the set that have the value's
  class, which are the pairs the engine can hand to it; \<open>record_outputs\<close> is then what
  these converters yield on the pair.
\<close>

definition per_record_on :: "(ExportedMetadata \<times> rdf_value) set \<Rightarrow> converter \<Rightarrow> bool" where
  "per_record_on P c =
     (\<forall>ps. set ps \<subseteq> P \<longrightarrow>
        BatchConvert c ps =
          Inr (concat (map (\<lambda>p. fst (iterate (BatchConvert c [p]))) ps), None))"

definition convertible ::
  "converter_class list \<Rightarrow> ExportOptions option \<Rightarrow> (ExportedMetadata \<times> rdf_value) set
     \<Rightarrow> ExportedMetadata \<times> rdf_value \<Rightarrow> bool" where
  "convertible classes options P p =
     (GetConvertersByValue classes (snd p) \<noteq> [] \<and>
      (\<forall>cls \<in> set (GetConvertersByValue classes (snd p)).
         case init cls options of
           Inl e \<Rightarrow> False
         | Inr c \<Rightarrow>
             per_record_on {q \<in> P. class_name (snd q) = class_name (snd p)} c))"

definition record_outputs ::
  "converter_class list \<Rightarrow> ExportOptions option \<Rightarrow> ExportedMetadata \<times> rdf_value
     \<Rightarrow> exported list" where
  "record_outputs classes options p =
     concat (map (\<lambda>cls. case init cls options of
                           Inl e \<Rightarrow> []
                         | Inr c \<Rightarrow> fst (iterate (BatchConvert c [p])))
               (GetConvertersByValue classes (snd p)))"

subsection \<open>Example data\<close>

definition md0 :: ExportedMetadata where
  "md0 = \<lparr>timestamp = 1, client_urn = ''aff4:/C.1'', client_age = 0, hostname = ''h'',
          os = ''Linux'', uname = [], os_release = [], os_version = [], usernames = [],
          mac_address = [], labels = [], source_urn = ''aff4:/C.1/results''\<rparr>"

definition md1 :: ExportedMetadata where
  "md1 = \<lparr>timestamp = 2, client_urn = ''aff4:/C.2'', client_age = 0, hostname = ''g'',
          os = ''Windows'', uname = [], os_release = [], os_version = [], usernames = [],
          mac_address = [], labels = [], source_urn = ''aff4:/C.2/results''\<rparr>"

definition st0 :: StatFields where
  "st0 = \<lparr>st_mode = 33188, st_ino = 7, st_dev = 1, st_nlink = 1, st_uid = 0, st_gid = 0,
          st_size = 12, st_atime = 100, st_mtime = 200, st_ctime = 300, st_blocks = 1,
          st_blksize = 4096, st_rdev = 0\<rparr>"

text \<open>A file entry, a registry entry with ASCII data, and one whose data is the letter e acute.\<close>

definition stat_entry_file :: StatEntry where
  "stat_entry_file =
     \<lparr>aff4path = ''aff4:/C.1/fs/os/etc/motd'', pathspec_Basename = ''motd'', st = st0,
      symlink = [], registry_type = None, registry_data = PyStr []\<rparr>"

definition stat_entry_registry :: StatEntry where
  "stat_entry_registry =
     \<lparr>aff4path = ''aff4:/C.1/registry/HKEY_USERS/Run/a'', pathspec_Basename = ''a'', st = st0,
      symlink = [], registry_type = Some ''REG_SZ'', registry_data = PyStr ''cmd''\<rparr>"

definition stat_entry_registry_unicode :: StatEntry where
  "stat_entry_registry_unicode =
     \<lparr>aff4path = ''aff4:/C.1/registry/HKEY_USERS/Run/b'', pathspec_Basename = ''b'', st = st0,
      symlink = [], registry_type = Some ''REG_SZ'', registry_data = PyUnicode [233]\<rparr>"

text \<open>The mapping of \<^verbatim>\<open>VolatilityResultToExportedVolatilityHandleConverter\<close>.\<close>

definition VolatilityHandle_mapping :: "(string \<times> string) list" where
  "VolatilityHandle_mapping =
     [(''offset_v'', ''offset''), (''pid'', ''pid''), (''handle'', ''handle''),
      (''access'', ''access''), (''obj_type'', ''type''), (''details'', ''path'')]"

text \<open>A store that holds one object, of a class without converter.\<close>

definition store_dir :: "urn \<rightharpoonup> rdf_value" where
  "store_dir = (\<lambda>u. if u = ''aff4:/C.1/fs/os/etc'' then Some (OtherV ''VFSDirectory'' ''etc'')
                    else None)"

text \<open>A store with one client, and two messages: one from that client, one from an unknown one.\<close>

definition client_store0 :: "urn \<rightharpoonup> VFSGRRClient" where
  "client_store0 =
     (\<lambda>u. if u = ''aff4:/C.1'' then
             Some \<lparr>urn_age = 3, HOSTNAME = Some ''host1'', SYSTEM = Some ''Linux'', UNAME = None,
                   OS_RELEASE = None, OS_VERSION = None, USERNAMES = Some ''root'',
                   MAC_ADDRESS = None, CLIENT_INFO_labels = Some [''a'', ''b'']\<rparr>
           else None)"

definition msgs0 :: message_pairs where
  "msgs0 = [(md0, \<lparr>source = ''aff4:/C.1'', payload = OtherV ''ClientSummary'' ''s''\<rparr>),
            (md1, \<lparr>source = ''aff4:/C.9'', payload = OtherV ''ClientSummary'' ''t''\<rparr>)]"

text \<open>
  The two converters of \<^verbatim>\<open>StatEntry\<close> in a registry. The registry lists its classes in
  the order of a dictionary's values, so either class may come first; both orders are
  given.
\<close>

definition StatEntry_classes_File_first :: "converter_class list" where
  "StatEntry_classes_File_first =
     [StatEntryToExportedFileConverter_class id Map.empty,
      StatEntryToExportedRegistryKeyConverter_class]"

definition StatEntry_classes_RegistryKey_first :: "converter_class list" where
  "StatEntry_classes_RegistryKey_first =
     [StatEntryToExportedRegistryKeyConverter_class,
      StatEntryToExportedFileConverter_class id Map.empty]"

text \<open>What the two converters yield for the registry entry and for the file entry above.\<close>

definition exported_registry_key0 :: exported where
  "exported_registry_key0 =
     ExportedRegistryKeyV
       \<lparr>rk_metadata = md0, rk_urn = ''aff4:/C.1/registry/HKEY_USERS/Run/a'',
        rk_last_modified = 200, rk_type = ''REG_SZ'', rk_data = Some ''cmd''\<rparr>"

definition exported_file0 :: exported where
  "exported_file0 = ExportedFileV (new_ExportedFile md0 stat_entry_file)"

text \<open>
  A collection of 1002 entries: a file entry and 999 registry entries, which fill the
  first sub-batch of a thousand, then a file entry and a registry entry.
\<close>

definition collection1002 :: "rdf_value list" where
  "collection1002 =
     StatEntryV stat_entry_file # replicate 999 (StatEntryV stat_entry_registry) @
     [StatEntryV stat_entry_file, StatEntryV stat_entry_registry]"

text \<open>A collection of a thousand values of a class without converter and one \<^verbatim>\<open>ClientSummary\<close>.\<close>

definition collection_unknown :: "rdf_value list" where
  "collection_unknown =
     replicate 1000 (OtherV ''Unknown'' ''u'') @ [OtherV ''ClientSummary'' ''a'']"

text \<open>Four entries: file, registry, file, registry.\<close>

definition collection4 :: "rdf_value list" where
  "collection4 = [StatEntryV stat_entry_file, StatEntryV stat_entry_registry,
                  StatEntryV stat_entry_file, StatEntryV stat_entry_registry]"


section \<open>Properties\<close>


lemma gen_then_None: "snd g = None \<Longrightarrow> gen_then g h = (fst g @ fst h, snd h)"
  by (cases g; cases h) auto

lemma BatchConvert_default_concat:
  assumes "\<forall>(m, v) \<in> set ps. snd (iterate (Convert m v)) = None"
  shows "ExportConverter_BatchConvert Convert ps =
           (concat (map (\<lambda>(m, v). fst (iterate (Convert m v))) ps), None)"
  using assms
proof (induction ps)
  case Nil
  then show ?case by simp
next
  case (Cons p ps)
  obtain m v where p: "p = (m, v)" by (cases p)
  from Cons.prems p have 1: "snd (iterate (Convert m v)) = None" by simp
  from Cons.prems have 2: "\<forall>(m, v) \<in> set ps. snd (iterate (Convert m v)) = None" by simp
  show ?case using Cons.IH[OF 2] 1 p by (simp add: gen_then_None)
qed

lemma group_insert_nonempty:
  "\<forall>g \<in> set m. snd g \<noteq> [] \<Longrightarrow> \<forall>g \<in> set (group_insert k x m). snd g \<noteq> []"
  by (induction k x m rule: group_insert.induct) auto

lemma foldl_group_insert_nonempty:
  "\<forall>g \<in> set m. snd g \<noteq> [] \<Longrightarrow>
   \<forall>g \<in> set (foldl (\<lambda>key_map item. group_insert (key item) item key_map) m items). snd g \<noteq> []"
proof (induction items arbitrary: m)
  case Nil
  then show ?case by simp
next
  case (Cons a items)
  have "\<forall>g \<in> set (group_insert (key a) a m). snd g \<noteq> []"
    using Cons.prems by (rule group_insert_nonempty)
  from Cons.IH[OF this] show ?case by simp
qed

lemma GroupBy_nonempty: "\<forall>g \<in> set (GroupBy items key). snd g \<noteq> []"
  unfolding GroupBy_def by (rule foldl_group_insert_nonempty) simp

lemma convert_groups_gen:
  assumes "\<forall>g \<in> set gs. snd g \<noteq> []"
    and "\<forall>g \<in> set gs. \<not> unmatched classes g \<longrightarrow> snd (group_result classes options g) = None"
  shows "convert_groups classes options gs err =
           (concat (map (\<lambda>g. fst (group_result classes options g))
                      (filter (\<lambda>g. \<not> unmatched classes g) gs)),
            (case filter (unmatched classes) gs of
               [] \<Rightarrow> (case err of None \<Rightarrow> None | Some v \<Rightarrow> Some (NoConverterFound v))
             | u # us \<Rightarrow> (case snd (last (u # us)) of
                     [] \<Rightarrow> None | (_, v) # _ \<Rightarrow> Some (NoConverterFound v))))"
  using assms
proof (induction gs arbitrary: err)
  case Nil
  then show ?case by (simp split: option.splits)
next
  case (Cons g gs)
  obtain t grp where g: "g = (t, grp)" by (cases g)
  from Cons.prems g obtain m v rest where grp: "grp = (m, v) # rest"
    by (cases grp) auto
  have ne: "\<forall>g \<in> set gs. snd g \<noteq> []" using Cons.prems by simp
  have ok: "\<forall>g \<in> set gs. \<not> unmatched classes g \<longrightarrow> snd (group_result classes options g) = None"
    using Cons.prems by simp
  note IH = Cons.IH[OF ne ok]
  show ?case
  proof (cases "GetConvertersByValue classes v = []")
    case True
    then have um: "unmatched classes g" by (simp add: unmatched_def g grp)
    show ?thesis
      using True um IH[of "Some v"] g grp
      by (auto simp: split: list.splits)
  next
    case False
    then have um: "\<not> unmatched classes g" by (simp add: unmatched_def g grp)
    with Cons.prems have fin: "snd (group_result classes options g) = None" by simp
    show ?thesis
    proof (cases "construct_all (GetConvertersByValue classes v) options")
      case (Inl e)
      with fin show ?thesis by (simp add: group_result_def g grp)
    next
      case (Inr cs)
      with fin have r: "snd (run_converters cs grp) = None"
        by (simp add: group_result_def g grp)
      have gr: "group_result classes options g = run_converters cs grp"
        using Inr by (simp add: group_result_def g grp)
      show ?thesis
        using False um IH[of err] Inr r gr g grp
        by (simp add: gen_then_None)
    qed
  qed
qed





lemma urn_batch_error: "urn_batch d fds = Inl e \<Longrightarrow> e = KeyError"
  by (induction d fds rule: urn_batch.induct) (auto split: option.splits sum.splits)

lemma RDFURNConverter_BatchConvert_returns_generator:
  "RDFURNConverter_BatchConvert classes store ps = Inl KeyError \<or>
   (\<exists>batch. RDFURNConverter_BatchConvert classes store ps =
       Inr (ConvertValuesWithMetadata classes batch None))"
  by (auto simp: RDFURNConverter_BatchConvert_def Let_def call_generator_def
      split: sum.splits dest: urn_batch_error)

text \<open>
  C3. The claim is that a \<^verbatim>\<open>NoConverterFound\<close> of the recursive engine call is logged
  and swallowed by \<^verbatim>\<open>RDFURNConverter.BatchConvert\<close>. The engine is a generator, so the
  handler around the call never sees the exception: the address below resolves to an
  object without converter, and whoever iterates the returned sequence gets
  \<^verbatim>\<open>NoConverterFound\<close>.
\<close>

theorem RDFURNConverter_BatchConvert_raises_NoConverterFound:
  "iterate (RDFURNConverter_BatchConvert [ClientSummaryToExportedClientConverter_class] store_dir
              [(md0, RDFURNV ''aff4:/C.1/fs/os/etc'')]) =
     ([], Some (NoConverterFound (OtherV ''VFSDirectory'' ''etc'')))"
  by (simp add: RDFURNConverter_BatchConvert_def dict_def MultiOpen_def store_dir_def
      call_generator_def ConvertValuesWithMetadata_def GroupBy_def GetConvertersByValue_def
      ClientSummaryToExportedClientConverter_class_def)

text \<open>
  C5. The claim is that registry data which cannot be decoded falls back to a byte
  representation and the record is still emitted. The handler reads
  \<^verbatim>\<open>stat.registry_data\<close>, an attribute of the module \<^verbatim>\<open>stat\<close>, so the conversion of
  a registry entry whose data is the single letter e acute raises \<^verbatim>\<open>AttributeError\<close>
  and emits nothing.
\<close>

theorem RegistryKeyConverter_Convert_raises_AttributeError:
  "StatEntryToExportedRegistryKeyConverter_Convert md0 stat_entry_registry_unicode =
     Inl (AttributeError ''registry_data'')"
  by (simp add: StatEntryToExportedRegistryKeyConverter_Convert_def
      stat_entry_registry_unicode_def stat_module_registry_data_def)

lemma RegistryKeyConverter_Convert_unicode:
  "registry_type se = Some t \<Longrightarrow> py_str (registry_data se) = Inl UnicodeEncodeError \<Longrightarrow>
   StatEntryToExportedRegistryKeyConverter_Convert m se = Inl (AttributeError ''registry_data'')"
  by (simp add: StatEntryToExportedRegistryKeyConverter_Convert_def
      stat_module_registry_data_def)

text \<open>
  C8. A \<^verbatim>\<open>StatEntry\<close> with \<^verbatim>\<open>registry_type\<close> given to the file converter, and one without
  it given to the registry-key converter, yield the empty sequence and raise nothing. In
  a batch the file converter yields one record per pair without \<^verbatim>\<open>registry_type\<close> and
  none for the others.
\<close>

theorem wrong_sub_kind_yields_nothing:
  "(registry_type stat_entry \<noteq> None \<longrightarrow>
      StatEntryToExportedFileConverter_Convert options sha256_hexdigest store metadata stat_entry =
        Inr ([], None))
   \<and> (registry_type stat_entry = None \<longrightarrow>
      StatEntryToExportedRegistryKeyConverter_Convert metadata stat_entry = Inr ([], None))
   \<and> StatEntryToExportedFileConverter_BatchConvert options sha256_hexdigest store ps =
       (map (\<lambda>(m, se). ExportedFileV
               (if export_files_hashes options \<or> export_files_contents options then
                  add_hashes_contents options sha256_hexdigest
                    (dict (MultiOpen store (map (\<lambda>(m, se). aff4path se) ps))) se
                    (new_ExportedFile m se)
                else new_ExportedFile m se))
          (filter (\<lambda>(m, se). registry_type se = None) ps), None)"
  by (auto simp: StatEntryToExportedFileConverter_Convert_def
      StatEntryToExportedFileConverter_BatchConvert_def
      StatEntryToExportedRegistryKeyConverter_Convert_def Let_def)

theorem wrong_sub_kind_yields_nothing_witness:
  "StatEntryToExportedFileConverter_Convert default_ExportOptions id Map.empty md0
      stat_entry_registry = Inr ([], None)
   \<and> StatEntryToExportedRegistryKeyConverter_Convert md0 stat_entry_file = Inr ([], None)"
proof -
  have 1: "registry_type stat_entry_registry \<noteq> None" by (simp add: stat_entry_registry_def)
  have 2: "registry_type stat_entry_file = None" by (simp add: stat_entry_file_def)
  from wrong_sub_kind_yields_nothing[of stat_entry_registry default_ExportOptions id Map.empty md0] 1
  have a: "StatEntryToExportedFileConverter_Convert default_ExportOptions id Map.empty md0
      stat_entry_registry = Inr ([], None)" by blast
  from wrong_sub_kind_yields_nothing[of stat_entry_file default_ExportOptions id Map.empty md0] 2
  have b: "StatEntryToExportedRegistryKeyConverter_Convert md0 stat_entry_file = Inr ([], None)"
    by blast
  from a b show ?thesis by simp
qed

lemma group_insert_keys:
  "map fst (group_insert k x d) = (if k \<in> set (map fst d) then map fst d else map fst d @ [k])"
  by (induction k x d rule: group_insert.induct) auto

lemma group_insert_map_of:
  "map_of (group_insert k x d) k' =
     (if k' = k then Some (case map_of d k of None \<Rightarrow> [x] | Some xs \<Rightarrow> xs @ [x])
      else map_of d k')"
  by (induction k x d rule: group_insert.induct) auto

lemma grouped_step:
  assumes "grouped key d xs"
  shows "grouped key (group_insert (key x) x d) (xs @ [x])"
proof -
  from assms have dist: "distinct (map fst d)" and keys: "set (map fst d) = key ` set xs"
    and look: "\<forall>k \<in> key ` set xs. map_of d k = Some (filter (\<lambda>x. key x = k) xs)"
    by (auto simp: grouped_def)
  have none: "key x \<notin> key ` set xs \<Longrightarrow> map_of d (key x) = None"
    using keys by (metis map_of_eq_None_iff set_map)
  have nofilter: "key x \<notin> key ` set xs \<Longrightarrow> filter (\<lambda>y. key y = key x) xs = []"
    by (force simp: filter_empty_conv image_iff)
  show ?thesis
    unfolding grouped_def
  proof (intro conjI ballI)
    show "distinct (map fst (group_insert (key x) x d))"
      using dist by (simp add: group_insert_keys)
    show "set (map fst (group_insert (key x) x d)) = key ` set (xs @ [x])"
      using keys by (auto simp: group_insert_keys)
    fix k assume "k \<in> key ` set (xs @ [x])"
    then consider "k = key x" | "k \<noteq> key x" "k \<in> key ` set xs" by auto
    then show "map_of (group_insert (key x) x d) k = Some (filter (\<lambda>x. key x = k) (xs @ [x]))"
    proof cases
      case 1
      show ?thesis
      proof (cases "key x \<in> key ` set xs")
        case True
        with look have "map_of d (key x) = Some (filter (\<lambda>y. key y = key x) xs)" by blast
        with 1 show ?thesis by (simp add: group_insert_map_of)
      next
        case False
        with none nofilter 1 show ?thesis by (simp add: group_insert_map_of)
      qed
    next
      case 2
      with look have "map_of d k = Some (filter (\<lambda>y. key y = k) xs)" by blast
      with 2 show ?thesis by (simp add: group_insert_map_of)
    qed
  qed
qed

lemma grouped_foldl:
  "grouped key d xs \<Longrightarrow>
   grouped key (foldl (\<lambda>m item. group_insert (key item) item m) d items) (xs @ items)"
proof (induction items arbitrary: d xs)
  case Nil
  then show ?case by simp
next
  case (Cons a items)
  from grouped_step[OF Cons.prems, of a]
  have "grouped key (group_insert (key a) a d) (xs @ [a])" .
  from Cons.IH[OF this] show ?case by simp
qed

lemma msg_dict_of_grouped:
  "grouped (\<lambda>p. source (snd p)) (msg_dict_of ps) ps"
proof -
  have e: "(\<lambda>msg_dict (metadata, msg). group_insert (source msg) (metadata, msg) msg_dict) =
           (\<lambda>m item. group_insert (source (snd item)) item m)"
    by (auto simp: fun_eq_iff)
  have "grouped (\<lambda>p. source (snd p)) ([] :: (urn \<times> message_pairs) list) []"
    by (simp add: grouped_def)
  from grouped_foldl[OF this, of ps] show ?thesis
    by (simp add: msg_dict_of_def e)
qed

lemma GroupBy_grouped: "grouped key (GroupBy items key) items"
proof -
  have "grouped key ([] :: ('b \<times> 'a list) list) []" by (simp add: grouped_def)
  from grouped_foldl[OF this, of items] show ?thesis by (simp add: GroupBy_def)
qed

lemma split_cached_eq:
  "split_cached c ks =
     (map (\<lambda>k. the (c k)) (filter (\<lambda>k. c k \<noteq> None) ks), filter (\<lambda>k. c k = None) ks)"
  by (induction ks) (auto split: option.splits)

lemma MultiOpen_eq:
  "MultiOpen store us = map (\<lambda>u. (u, the (store u))) (filter (\<lambda>u. store u \<noteq> None) us)"
  unfolding MultiOpen_def by (induction us) (auto split: option.splits)

lemma foldl_cache_update:
  assumes "\<And>u. g (f u) = u"
  shows "foldl (\<lambda>c m. c(g m \<mapsto> m)) c (map f us) k = (if k \<in> set us then Some (f k) else c k)"
proof (induction us arbitrary: c)
  case Nil
  then show ?case by simp
next
  case (Cons u us)
  show ?case using Cons.IH[of "c(g (f u) \<mapsto> f u)"] assms by auto
qed

lemma client_urn_GetMetadata: "client_urn (GetMetadata now (u, fd)) = u"
  by (simp add: GetMetadata_def)

lemma fetch_metadata_eq:
  "fetch_metadata store now c fetch =
     (map (\<lambda>k. GetMetadata now (k, the (store k))) (filter (\<lambda>k. store k \<noteq> None) fetch),
      (\<lambda>k. if k \<in> set fetch \<and> store k \<noteq> None then Some (GetMetadata now (k, the (store k)))
            else c k))"
proof (cases "fetch = []")
  case True
  then show ?thesis by (simp add: fetch_metadata_def)
next
  case False
  have m: "map (GetMetadata now) (MultiOpen store fetch) =
      map (\<lambda>k. GetMetadata now (k, the (store k))) (filter (\<lambda>k. store k \<noteq> None) fetch)"
    by (simp add: MultiOpen_eq comp_def)
  have "\<And>k. foldl (\<lambda>c metadata. c(client_urn metadata \<mapsto> metadata)) c
            (map (\<lambda>k. GetMetadata now (k, the (store k))) (filter (\<lambda>k. store k \<noteq> None) fetch)) k =
        (if k \<in> set (filter (\<lambda>k. store k \<noteq> None) fetch)
         then Some (GetMetadata now (k, the (store k))) else c k)"
    by (rule foldl_cache_update) (simp add: client_urn_GetMetadata)
  then have "foldl (\<lambda>c metadata. c(client_urn metadata \<mapsto> metadata)) c
            (map (\<lambda>k. GetMetadata now (k, the (store k))) (filter (\<lambda>k. store k \<noteq> None) fetch)) =
        (\<lambda>k. if k \<in> set fetch \<and> store k \<noteq> None then Some (GetMetadata now (k, the (store k)))
            else c k)"
    by (auto simp: fun_eq_iff)
  with False m show ?thesis by (simp add: fetch_metadata_def Let_def)
qed

lemma batch_data_of_keys:
  assumes g: "grouped (\<lambda>p. source (snd p)) d ps"
    and L: "set L \<subseteq> set (map fst d)"
    and f: "\<And>k. k \<in> set L \<Longrightarrow> c' k = Some (f k) \<and> client_urn (f k) = k"
  shows "batch_data_of (map f L) d =
           concat (map (\<lambda>k. map (enrich c') (filter (\<lambda>p. source (snd p) = k) ps)) L)"
proof -
  have "\<And>k. k \<in> set L \<Longrightarrow>
      (case map_of d (client_urn (f k)) of
         None \<Rightarrow> []
       | Some msgs \<Rightarrow>
           map (\<lambda>(original_metadata, message).
                  (new_metadata_for (f k) original_metadata, payload message)) msgs) =
      map (enrich c') (filter (\<lambda>p. source (snd p) = k) ps)"
  proof -
    fix k assume k: "k \<in> set L"
    with L g have "k \<in> (\<lambda>p. source (snd p)) ` set ps" by (auto simp: grouped_def)
    with g have look: "map_of d k = Some (filter (\<lambda>p. source (snd p) = k) ps)"
      unfolding grouped_def by blast
    have "\<And>p. source (snd p) = k \<Longrightarrow>
        (case p of (original_metadata, message) \<Rightarrow>
           (new_metadata_for (f k) original_metadata, payload message)) = enrich c' p"
      using f[OF k] by (auto simp: enrich_def split: prod.splits)
    then have "map (\<lambda>(original_metadata, message).
                  (new_metadata_for (f k) original_metadata, payload message))
               (filter (\<lambda>p. source (snd p) = k) ps) =
          map (enrich c') (filter (\<lambda>p. source (snd p) = k) ps)"
      by (intro map_cong) auto
    with look f[OF k] show "(case map_of d (client_urn (f k)) of
         None \<Rightarrow> []
       | Some msgs \<Rightarrow>
           map (\<lambda>(original_metadata, message).
                  (new_metadata_for (f k) original_metadata, payload message)) msgs) =
      map (enrich c') (filter (\<lambda>p. source (snd p) = k) ps)" by simp
  qed
  then show ?thesis
    unfolding batch_data_of_def map_map comp_def
    by (intro arg_cong[where f=concat] map_cong) auto
qed

lemma mset_concat_groups:
  assumes "distinct L"
  shows "mset (concat (map (\<lambda>k. map h (filter (\<lambda>p. key p = k) ps)) L)) =
         mset (map h (filter (\<lambda>p. key p \<in> set L) ps))"
  using assms
proof (induction L)
  case Nil
  then show ?case by simp
next
  case (Cons k L)
  then have kL: "k \<notin> set L" and dL: "distinct L" by auto
  have split: "filter_mset (\<lambda>p. key p \<in> set (k # L)) (mset ps) =
      filter_mset (\<lambda>p. key p = k) (mset ps) + filter_mset (\<lambda>p. key p \<in> set L) (mset ps)"
    using kL by (intro multiset_eqI) auto
  have "mset (map h (filter (\<lambda>p. key p \<in> set (k # L)) ps)) =
        image_mset h (filter_mset (\<lambda>p. key p \<in> set (k # L)) (mset ps))"
    by simp
  also have "\<dots> = image_mset h (filter_mset (\<lambda>p. key p = k) (mset ps)) +
                  image_mset h (filter_mset (\<lambda>p. key p \<in> set L) (mset ps))"
    unfolding split by simp
  finally show ?case using Cons.IH[OF dL] by simp
qed

lemma batch_data_char:
  assumes ok: "cached_metadata_ok c"
    and run: "GrrMessageConverter_batch_data store now c ps = (batch_data, c')"
  shows "c' = (\<lambda>k. if k \<in> (\<lambda>p. source (snd p)) ` set ps \<and> c k = None \<and> store k \<noteq> None
                  then Some (GetMetadata now (k, the (store k))) else c k)"
    and "\<exists>L. distinct L \<and> set L = {k \<in> (\<lambda>p. source (snd p)) ` set ps. c' k \<noteq> None} \<and>
           batch_data =
             concat (map (\<lambda>k. map (enrich c') (filter (\<lambda>p. source (snd p) = k) ps)) L)"
proof -
  let ?key = "\<lambda>p::ExportedMetadata \<times> GrrMessage. source (snd p)"
  let ?d = "msg_dict_of ps"
  let ?ks = "map fst ?d"
  let ?cachedK = "filter (\<lambda>k. c k \<noteq> None) ?ks"
  let ?fetchK = "filter (\<lambda>k. c k = None) ?ks"
  let ?gotK = "filter (\<lambda>k. store k \<noteq> None) ?fetchK"
  let ?c' = "(\<lambda>k. if k \<in> set ?fetchK \<and> store k \<noteq> None
                   then Some (GetMetadata now (k, the (store k))) else c k)"
  let ?f = "\<lambda>k. the (?c' k)"
  have g: "grouped ?key ?d ps" by (rule msg_dict_of_grouped)
  then have dist: "distinct ?ks" and keys: "set ?ks = ?key ` set ps"
    by (auto simp: grouped_def)
  from run have bd: "batch_data =
      batch_data_of (map (\<lambda>k. the (c k)) ?cachedK @
                     map (\<lambda>k. GetMetadata now (k, the (store k))) ?gotK) ?d"
    and c'1: "c' = ?c'"
    by (auto simp: GrrMessageConverter_batch_data_def Let_def split_cached_eq fetch_metadata_eq)
  show c'2: "c' = (\<lambda>k. if k \<in> ?key ` set ps \<and> c k = None \<and> store k \<noteq> None
                  then Some (GetMetadata now (k, the (store k))) else c k)"
    unfolding c'1 using keys by (auto simp: fun_eq_iff)
  let ?L = "?cachedK @ ?gotK"
  have objs: "map (\<lambda>k. the (c k)) ?cachedK @
              map (\<lambda>k. GetMetadata now (k, the (store k))) ?gotK = map ?f ?L"
    by auto
  have dL: "distinct ?L" using dist by auto
  have sub: "set ?L \<subseteq> set ?ks" by auto
  have fk: "\<And>k. k \<in> set ?L \<Longrightarrow> c' k = Some (?f k) \<and> client_urn (?f k) = k"
  proof -
    fix k assume "k \<in> set ?L"
    then consider "k \<in> set ?ks" "c k \<noteq> None" | "k \<in> set ?ks" "c k = None" "store k \<noteq> None"
      by auto
    then show "c' k = Some (?f k) \<and> client_urn (?f k) = k"
    proof cases
      case 1
      then obtain m where m: "c k = Some m" by auto
      with ok have "client_urn m = k" by (simp add: cached_metadata_ok_def)
      with 1 m show ?thesis unfolding c'1 by simp
    next
      case 2
      then show ?thesis unfolding c'1 by (simp add: client_urn_GetMetadata)
    qed
  qed
  have setL: "set ?L = {k \<in> ?key ` set ps. c' k \<noteq> None}"
    unfolding c'1 using keys by auto
  have "batch_data = concat (map (\<lambda>k. map (enrich c') (filter (\<lambda>p. ?key p = k) ps)) ?L)"
    unfolding bd objs by (rule batch_data_of_keys[OF g sub fk])
  with dL setL
  show "\<exists>L. distinct L \<and> set L = {k \<in> ?key ` set ps. c' k \<noteq> None} \<and>
           batch_data = concat (map (\<lambda>k. map (enrich c') (filter (\<lambda>p. ?key p = k) ps)) L)"
    by blast
qed

lemma batch_data_mset:
  assumes ok: "cached_metadata_ok c"
    and run: "GrrMessageConverter_batch_data store now c ps = (batch_data, c')"
  shows "mset batch_data = mset (map (enrich c') (filter (resolved c') ps))"
proof -
  from batch_data_char(2)[OF ok run] obtain L where dL: "distinct L"
    and setL: "set L = {k \<in> (\<lambda>p. source (snd p)) ` set ps. c' k \<noteq> None}"
    and bd: "batch_data =
             concat (map (\<lambda>k. map (enrich c') (filter (\<lambda>p. source (snd p) = k) ps)) L)"
    by blast
  have "filter (\<lambda>p. source (snd p) \<in> set L) ps = filter (resolved c') ps"
    unfolding setL by (intro filter_cong) (auto simp: resolved_def)
  with mset_concat_groups[OF dL, of "enrich c'" "\<lambda>p. source (snd p)" ps] bd
  show ?thesis by simp
qed




lemma run0:
  "GrrMessageConverter_batch_data client_store0 5 Map.empty msgs0 =
     ([(new_metadata_for (GetMetadata 5 (''aff4:/C.1'', the (client_store0 ''aff4:/C.1''))) md0,
        OtherV ''ClientSummary'' ''s'')],
      (\<lambda>k. if k = ''aff4:/C.1'' then
              Some (GetMetadata 5 (''aff4:/C.1'', the (client_store0 ''aff4:/C.1''))) else None))"
  by (auto simp: GrrMessageConverter_batch_data_def msgs0_def msg_dict_of_def Let_def
      fetch_metadata_def MultiOpen_def client_store0_def batch_data_of_def fun_eq_iff
      client_urn_GetMetadata)


text \<open>
  C7. Every pair handed to the payload converters carries the payload of a record of the
  batch and a metadata that equals the cached metadata of the record's source in every
  field except \<^verbatim>\<open>source_urn\<close> and \<^verbatim>\<open>timestamp\<close>, which are those of the metadata
  given with the record; and every record with a cached source is handed on so.
\<close>

theorem GrrMessageConverter_metadata_override:
  assumes "cached_metadata_ok cached_metadata"
    and "GrrMessageConverter_batch_data store now cached_metadata ps = (batch_data, cached_metadata')"
  shows "(\<forall>(nm, v) \<in> set batch_data.
            \<exists>(om, msg) \<in> set ps. \<exists>md.
              cached_metadata' (source msg) = Some md \<and> v = payload msg \<and>
              nm = md\<lparr>source_urn := source_urn om, timestamp := timestamp om\<rparr> \<and>
              source_urn nm = source_urn om \<and> timestamp nm = timestamp om \<and>
              client_urn nm = client_urn md \<and> client_age nm = client_age md \<and>
              hostname nm = hostname md \<and> os nm = os md \<and> uname nm = uname md \<and>
              os_release nm = os_release md \<and> os_version nm = os_version md \<and>
              usernames nm = usernames md \<and> mac_address nm = mac_address md \<and>
              labels nm = labels md)
         \<and> (\<forall>(om, msg) \<in> set ps. \<forall>md.
              cached_metadata' (source msg) = Some md \<longrightarrow>
              (md\<lparr>source_urn := source_urn om, timestamp := timestamp om\<rparr>, payload msg)
                \<in> set batch_data)"
proof -
  let ?c' = cached_metadata'
  have m: "mset batch_data = mset (map (enrich ?c') (filter (resolved ?c') ps))"
    by (rule batch_data_mset[OF assms])
  then have s: "set batch_data = enrich ?c' ` {p \<in> set ps. resolved ?c' p}"
    by (metis set_mset_mset set_map set_filter)
  have a: "\<forall>(nm, v) \<in> set batch_data.
            \<exists>(om, msg) \<in> set ps. \<exists>md.
              ?c' (source msg) = Some md \<and> v = payload msg \<and>
              nm = md\<lparr>source_urn := source_urn om, timestamp := timestamp om\<rparr> \<and>
              source_urn nm = source_urn om \<and> timestamp nm = timestamp om \<and>
              client_urn nm = client_urn md \<and> client_age nm = client_age md \<and>
              hostname nm = hostname md \<and> os nm = os md \<and> uname nm = uname md \<and>
              os_release nm = os_release md \<and> os_version nm = os_version md \<and>
              usernames nm = usernames md \<and> mac_address nm = mac_address md \<and>
              labels nm = labels md"
  proof (clarify)
    fix nm v assume "(nm, v) \<in> set batch_data"
    with s obtain p where p: "p \<in> set ps" "resolved ?c' p" "(nm, v) = enrich ?c' p" by auto
    obtain om msg where pm: "p = (om, msg)" by (cases p)
    from p(2) pm obtain md where md: "?c' (source msg) = Some md" by (auto simp: resolved_def)
    from p(3) pm md have nm: "nm = md\<lparr>source_urn := source_urn om, timestamp := timestamp om\<rparr>"
      and v: "v = payload msg"
      by (simp_all add: enrich_def new_metadata_for_def)
    show "\<exists>(om, msg) \<in> set ps. \<exists>md.
              ?c' (source msg) = Some md \<and> v = payload msg \<and>
              nm = md\<lparr>source_urn := source_urn om, timestamp := timestamp om\<rparr> \<and>
              source_urn nm = source_urn om \<and> timestamp nm = timestamp om \<and>
              client_urn nm = client_urn md \<and> client_age nm = client_age md \<and>
              hostname nm = hostname md \<and> os nm = os md \<and> uname nm = uname md \<and>
              os_release nm = os_release md \<and> os_version nm = os_version md \<and>
              usernames nm = usernames md \<and> mac_address nm = mac_address md \<and>
              labels nm = labels md"
      using p(1) pm md nm v by (intro bexI[of _ "(om, msg)"]) auto
  qed
  have b: "\<forall>(om, msg) \<in> set ps. \<forall>md.
              ?c' (source msg) = Some md \<longrightarrow>
              (md\<lparr>source_urn := source_urn om, timestamp := timestamp om\<rparr>, payload msg)
                \<in> set batch_data"
  proof (clarify)
    fix om msg md assume in_ps: "(om, msg) \<in> set ps" and md: "?c' (source msg) = Some md"
    then have "resolved ?c' (om, msg)" by (simp add: resolved_def)
    with in_ps have "enrich ?c' (om, msg) \<in> set batch_data" unfolding s by blast
    with md show "(md\<lparr>source_urn := source_urn om, timestamp := timestamp om\<rparr>, payload msg)
                \<in> set batch_data"
      by (simp add: enrich_def new_metadata_for_def)
  qed
  from a b show ?thesis by blast
qed

theorem GrrMessageConverter_metadata_override_witness:
  "cached_metadata_ok Map.empty
   \<and> ((GetMetadata 5 (''aff4:/C.1'', the (client_store0 ''aff4:/C.1'')))
          \<lparr>source_urn := ''aff4:/C.1/results'', timestamp := 1\<rparr>,
        OtherV ''ClientSummary'' ''s'')
       \<in> set (fst (GrrMessageConverter_batch_data client_store0 5 Map.empty msgs0))
   \<and> (\<exists>om msg md.
         (om, msg) \<in> set msgs0 \<and>
         snd (GrrMessageConverter_batch_data client_store0 5 Map.empty msgs0) (source msg) = Some md \<and>
         hostname (fst (hd (fst (GrrMessageConverter_batch_data client_store0 5 Map.empty msgs0)))) =
           hostname md \<and>
         timestamp (fst (hd (fst (GrrMessageConverter_batch_data client_store0 5 Map.empty msgs0)))) =
           timestamp om)"
proof -
  let ?X = "GrrMessageConverter_batch_data client_store0 5 Map.empty msgs0"
  let ?md = "GetMetadata 5 (''aff4:/C.1'', the (client_store0 ''aff4:/C.1''))"
  have ok: "cached_metadata_ok Map.empty" by (simp add: cached_metadata_ok_def)
  have run: "?X = (fst ?X, snd ?X)" by simp
  have c: "snd ?X ''aff4:/C.1'' = Some ?md" by (simp add: run0)
  have i: "(md0, \<lparr>source = ''aff4:/C.1'', payload = OtherV ''ClientSummary'' ''s''\<rparr>) \<in> set msgs0"
    by (simp add: msgs0_def)
  note T = GrrMessageConverter_metadata_override[OF ok run]
  from T have "\<forall>(om, msg) \<in> set msgs0. \<forall>md.
              snd ?X (source msg) = Some md \<longrightarrow>
              (md\<lparr>source_urn := source_urn om, timestamp := timestamp om\<rparr>, payload msg)
                \<in> set (fst ?X)" by (rule conjunct2)
  with i c have "(?md\<lparr>source_urn := source_urn md0, timestamp := timestamp md0\<rparr>,
       payload \<lparr>source = ''aff4:/C.1'', payload = OtherV ''ClientSummary'' ''s''\<rparr>) \<in> set (fst ?X)"
    by fastforce
  then have a: "(?md\<lparr>source_urn := ''aff4:/C.1/results'', timestamp := 1\<rparr>,
       OtherV ''ClientSummary'' ''s'') \<in> set (fst ?X)"
    by (simp add: md0_def)
  have hdin: "hd (fst ?X) \<in> set (fst ?X)" by (simp add: run0)
  obtain nm v where nv: "hd (fst ?X) = (nm, v)" by (cases "hd (fst ?X)")
  from T have "\<forall>(nm, v) \<in> set (fst ?X).
            \<exists>(om, msg) \<in> set msgs0. \<exists>md.
              snd ?X (source msg) = Some md \<and> v = payload msg \<and>
              nm = md\<lparr>source_urn := source_urn om, timestamp := timestamp om\<rparr> \<and>
              source_urn nm = source_urn om \<and> timestamp nm = timestamp om \<and>
              client_urn nm = client_urn md \<and> client_age nm = client_age md \<and>
              hostname nm = hostname md \<and> os nm = os md \<and> uname nm = uname md \<and>
              os_release nm = os_release md \<and> os_version nm = os_version md \<and>
              usernames nm = usernames md \<and> mac_address nm = mac_address md \<and>
              labels nm = labels md" by (rule conjunct1)
  with hdin nv obtain om msg md where
    "(om, msg) \<in> set msgs0" "snd ?X (source msg) = Some md"
    "hostname nm = hostname md" "timestamp nm = timestamp om"
    by fastforce
  with nv have b: "\<exists>om msg md.
         (om, msg) \<in> set msgs0 \<and> snd ?X (source msg) = Some md \<and>
         hostname (fst (hd (fst ?X))) = hostname md \<and>
         timestamp (fst (hd (fst ?X))) = timestamp om"
    by auto
  from ok a b show ?thesis by (intro conjI) assumption+
qed


lemma Grouper_concat: "0 < n \<Longrightarrow> concat (Grouper xs n) = xs"
proof (induction xs n rule: Grouper.induct)
  case (1 xs n)
  show ?case
  proof (cases "xs = []")
    case True
    then show ?thesis by (subst Grouper.simps) simp
  next
    case False
    with 1 have "concat (Grouper (drop n xs) n) = drop n xs" by simp
    with False 1(2) show ?thesis by (subst Grouper.simps) simp
  qed
qed

lemma Grouper_batches: "b \<in> set (Grouper xs n) \<Longrightarrow> b \<noteq> [] \<and> length b \<le> n"
proof (induction xs n arbitrary: b rule: Grouper.induct)
  case (1 xs n)
  show ?case
  proof (cases "n = 0 \<or> xs = []")
    case True
    with 1(2) show ?thesis by (subst (asm) Grouper.simps) simp
  next
    case False
    with 1(2) have "b = take n xs \<or> b \<in> set (Grouper (drop n xs) n)"
      by (subst (asm) Grouper.simps) simp
    then show ?thesis
    proof
      assume "b = take n xs"
      with False show ?thesis by auto
    next
      assume "b \<in> set (Grouper (drop n xs) n)"
      with 1(1) False show ?thesis by blast
    qed
  qed
qed

lemma Grouper_length: "0 < n \<Longrightarrow> length (Grouper xs n) = (length xs + n - 1) div n"
proof (induction xs n rule: Grouper.induct)
  case (1 xs n)
  show ?case
  proof (cases "xs = []")
    case True
    with 1(2) show ?thesis by (subst Grouper.simps) simp
  next
    case False
    with 1 have IH: "length (Grouper (drop n xs) n) = (length (drop n xs) + n - 1) div n" by simp
    have "length (Grouper xs n) = Suc (length (Grouper (drop n xs) n))"
      using False 1(2) by (subst Grouper.simps) simp
    also have "\<dots> = Suc ((length xs - n + n - 1) div n)" using IH by simp
    also have "\<dots> = (length xs + n - 1) div n"
    proof -
      from False have pos: "0 < length xs" by simp
      then have "length xs + n - 1 = (length xs - 1) + 1 * n" by arith
      then have key: "(length xs + n - 1) div n = (length xs - 1) div n + 1"
        using 1(2) by (metis div_mult_self1 less_numeral_extra(3) add.commute mult.commute)
      show ?thesis
      proof (cases "n \<le> length xs")
        case True
        then have "length xs - n + n - 1 = length xs - 1" by simp
        with key show ?thesis by simp
      next
        case False
        then have lt: "length xs < n" by simp
        then have a: "(length xs - n + n - 1) div n = 0" using 1(2) by simp
        have "(length xs - 1) div n = 0" using lt by simp
        with key a show ?thesis by simp
      qed
    qed
    finally show ?thesis .
  qed
qed

lemma Grouper_nth:
  "0 < n \<Longrightarrow> i < length (Grouper xs n) \<Longrightarrow> Grouper xs n ! i = take n (drop (i * n) xs)"
proof (induction xs n arbitrary: i rule: Grouper.induct)
  case (1 xs n)
  show ?case
  proof (cases "xs = []")
    case True
    with 1(3) show ?thesis by (subst (asm) Grouper.simps) simp
  next
    case False
    have G: "Grouper xs n = take n xs # Grouper (drop n xs) n"
      using False 1(2) by (subst Grouper.simps) simp
    show ?thesis
    proof (cases i)
      case 0
      then show ?thesis by (subst G) simp
    next
      case (Suc j)
      with 1(3) G have "j < length (Grouper (drop n xs) n)" by simp
      with 1(1)[of j] False 1(2) have "Grouper (drop n xs) n ! j = take n (drop (j * n) (drop n xs))"
        by simp
      with Suc show ?thesis by (subst G) (simp add: add.commute)
    qed
  qed
qed

lemma Grouper_2500:
  assumes "length xs = 2500"
  shows "map length (Grouper xs 1000) = [1000, 1000, 500]"
proof -
  have ne: "xs \<noteq> []" using assms by auto
  have a: "Grouper xs 1000 = take 1000 xs # Grouper (drop 1000 xs) 1000"
    using ne by (subst Grouper.simps) simp
  have ne1: "drop 1000 xs \<noteq> []" using assms by simp
  have b: "Grouper (drop 1000 xs) 1000 =
      take 1000 (drop 1000 xs) # Grouper (drop 1000 (drop 1000 xs)) 1000"
    using ne1 by (subst Grouper.simps) simp
  have ne2: "drop 1000 (drop 1000 xs) \<noteq> []" using assms by simp
  have c: "Grouper (drop 1000 (drop 1000 xs)) 1000 =
      take 1000 (drop 1000 (drop 1000 xs)) # Grouper (drop 1000 (drop 1000 (drop 1000 xs))) 1000"
    using ne2 by (subst Grouper.simps) simp
  have e: "drop 1000 (drop 1000 (drop 1000 xs)) = []" using assms by simp
  have d: "Grouper (drop 1000 (drop 1000 (drop 1000 xs))) 1000 = []"
    unfolding e by (subst Grouper.simps) simp
  show ?thesis unfolding a b c d using assms by simp
qed

lemma Grouper_single: "0 < n \<Longrightarrow> xs \<noteq> [] \<Longrightarrow> length xs \<le> n \<Longrightarrow> Grouper xs n = [xs]"
proof -
  assume n: "0 < n" and ne: "xs \<noteq> []" and le: "length xs \<le> n"
  have "Grouper xs n = take n xs # Grouper (drop n xs) n"
    using n ne by (subst Grouper.simps) simp
  moreover have "Grouper (drop n xs) n = []" using le by (subst Grouper.simps) simp
  ultimately show ?thesis using le by simp
qed


lemma hash_hits_results_ok:
  assumes "\<forall>hit \<in> set hits. Split hit 2 \<noteq> []"
  shows "hash_hits_results Split md h hits =
           Inr (map (\<lambda>hit. ExportedFileStoreHashV
                      \<lparr>fsh_metadata = md\<lparr>client_urn := hd (Split hit 2)\<rparr>, fsh_hash = hash_value h,
                       fsh_fingerprint_type = fingerprint_type h,
                       fsh_hash_type = hash_type h, fsh_target_urn = hit\<rparr>) hits)"
  using assms by (induction hits) (auto split: list.splits)

lemma all_hits_results_ok:
  assumes "\<forall>(h, hits) \<in> set found. \<forall>hit \<in> set hits. Split hit 2 \<noteq> []"
    and "\<forall>(h, hits) \<in> set found. hits \<noteq> [] \<longrightarrow> map_of urns_dict h \<noteq> None"
  shows "all_hits_results Split urns_dict found =
           Inr (concat (map (\<lambda>(h, hits).
                  map (\<lambda>hit. ExportedFileStoreHashV
                      \<lparr>fsh_metadata = (the (map_of urns_dict h))\<lparr>client_urn := hd (Split hit 2)\<rparr>,
                       fsh_hash = hash_value h,
                       fsh_fingerprint_type = fingerprint_type h,
                       fsh_hash_type = hash_type h, fsh_target_urn = hit\<rparr>) hits) found))"
  using assms
proof (induction found)
  case Nil
  then show ?case by simp
next
  case (Cons x found)
  obtain h hits where x: "x = (h, hits)" by (cases x)
  from Cons.prems have 1: "\<forall>(h, hits) \<in> set found. \<forall>hit \<in> set hits. Split hit 2 \<noteq> []"
    and 2: "\<forall>(h, hits) \<in> set found. hits \<noteq> [] \<longrightarrow> map_of urns_dict h \<noteq> None"
    by auto
  note IH = Cons.IH[OF 1 2]
  show ?case
  proof (cases "hits = []")
    case True
    with IH x show ?thesis by simp
  next
    case False
    with Cons.prems x obtain md where md: "map_of urns_dict h = Some md" by auto
    from Cons.prems x have s: "\<forall>hit \<in> set hits. Split hit 2 \<noteq> []" by auto
    from hash_hits_results_ok[of hits Split md h] s IH x False md show ?thesis by simp
  qed
qed

lemma map_of_dict_set:
  "map_of (dict_set k v d) k' = (if k' = k then Some v else map_of d k')"
  by (induction k v d rule: dict_set.induct) auto

lemma map_of_foldl_dict_set:
  "map_of (foldl (\<lambda>d (k, v). dict_set k v d) d kvs) k =
     (case map_of (rev kvs) k of None \<Rightarrow> map_of d k | Some v \<Rightarrow> Some v)"
proof (induction kvs arbitrary: d)
  case Nil
  then show ?case by simp
next
  case (Cons kv kvs)
  obtain k0 v0 where kv: "kv = (k0, v0)" by (cases kv)
  show ?case
    using Cons.IH[of "dict_set k0 v0 d"]
    by (auto simp: kv map_of_dict_set map_add_def split: option.splits)
qed

lemma map_of_dict: "map_of (dict kvs) k = map_of (rev kvs) k"
  unfolding dict_def using map_of_foldl_dict_set[of "[]" kvs k]
  by (simp split: option.splits)

text \<open>
  \<^verbatim>\<open>FileStoreHashConverter.BatchConvert\<close>: when the index only returns hits for hashes
  of the batch and \<open>Split\<close> never returns an empty list, there is one output per hash and
  hit, in the order of the index, and its metadata is the metadata last given with the
  hash, with \<^verbatim>\<open>client_urn\<close> replaced by \<^verbatim>\<open>RDFURN(hit).Split(2)[0]\<close>. What
  \<^verbatim>\<open>Split(2)[0]\<close> is in terms of the hit's path is decided by \<^verbatim>\<open>RDFURN.Split\<close>, which
  is outside the sources.
\<close>

lemma FileStoreHashConverter_BatchConvert_results:
  assumes "\<forall>(h, hits) \<in> set (GetHitsForHashes (map snd ps)).
             \<forall>hit \<in> set hits. Split hit 2 \<noteq> []"
    and "\<forall>(h, hits) \<in> set (GetHitsForHashes (map snd ps)). hits \<noteq> [] \<longrightarrow> h \<in> snd ` set ps"
  shows "FileStoreHashConverter_BatchConvert GetHitsForHashes Split ps =
           Inr (concat (map (\<lambda>(h, hits).
                  map (\<lambda>hit. ExportedFileStoreHashV
                      \<lparr>fsh_metadata =
                         (the (map_of (rev (map (\<lambda>(metadata, u). (u, metadata)) ps)) h))
                           \<lparr>client_urn := hd (Split hit 2)\<rparr>,
                       fsh_hash = hash_value h,
                       fsh_fingerprint_type = fingerprint_type h,
                       fsh_hash_type = hash_type h, fsh_target_urn = hit\<rparr>) hits)
                  (GetHitsForHashes (map snd ps))))"
proof -
  let ?d = "dict (map (\<lambda>(metadata, u). (u, metadata)) ps)"
  have dom: "\<And>h. h \<in> snd ` set ps \<Longrightarrow> map_of ?d h \<noteq> None"
  proof -
    fix h assume "h \<in> snd ` set ps"
    then have "h \<in> fst ` set (rev (map (\<lambda>(metadata, u). (u, metadata)) ps))" by force
    then show "map_of ?d h \<noteq> None"
      unfolding map_of_dict by (simp add: map_of_eq_None_iff)
  qed
  have 2: "\<forall>(h, hits) \<in> set (GetHitsForHashes (map snd ps)). hits \<noteq> [] \<longrightarrow> map_of ?d h \<noteq> None"
    using assms(2) dom by blast
  have e: "\<And>h. map_of ?d h = map_of (rev (map (\<lambda>(metadata, u). (u, metadata)) ps)) h"
    by (rule map_of_dict)
  have "all_hits_results Split ?d (GetHitsForHashes (map snd ps)) =
           Inr (concat (map (\<lambda>(h, hits).
                  map (\<lambda>hit. ExportedFileStoreHashV
                      \<lparr>fsh_metadata = (the (map_of ?d h))\<lparr>client_urn := hd (Split hit 2)\<rparr>,
                       fsh_hash = hash_value h,
                       fsh_fingerprint_type = fingerprint_type h,
                       fsh_hash_type = hash_type h, fsh_target_urn = hit\<rparr>) hits)
                  (GetHitsForHashes (map snd ps))))"
    using assms(1) 2 by (rule all_hits_results_ok)
  then show ?thesis
    unfolding FileStoreHashConverter_BatchConvert_def Let_def e .
qed

text \<open>
  The lookup cache of \<^verbatim>\<open>GetConvertersByValue\<close>: from a cache that holds results of the
  filter only, the cached lookup gives what the filter gives and leaves such a cache.
\<close>

lemma GetConvertersByValue_cached_eq:
  assumes "cache_consistent classes converters_cache"
  shows "fst (GetConvertersByValue_cached classes converters_cache v) =
           GetConvertersByValue classes v
         \<and> cache_consistent classes (snd (GetConvertersByValue_cached classes converters_cache v))"
  using assms
  by (auto simp: GetConvertersByValue_cached_def GetConvertersByValue_def cache_consistent_def
      Let_def split: option.splits)










lemma ClientSummary_class_init:
  "init ClientSummaryToExportedClientConverter_class options =
     Inr (Converter (\<lambda>metadata_value_pairs.
            Inr (ExportConverter_BatchConvert ClientSummaryToExportedClientConverter_Convert
                   metadata_value_pairs)))"
  by (simp add: ClientSummaryToExportedClientConverter_class_def)



text \<open>
  C9. The claim is that a converter whose required value is absent fails at construction
  and that the construction of one with both values present succeeds.
  \<^verbatim>\<open>VolatilityResultConverter.__init__(self)\<close> takes no options, while both places that
  construct converters (lines 655 and 859) call \<^verbatim>\<open>cls(options)\<close>: for the handle
  converter, which has both values, that call raises \<^verbatim>\<open>TypeError\<close>, whether the
  options are \<^verbatim>\<open>None\<close> or not. Only a call without arguments, which the program never
  makes, constructs the converter.
\<close>

theorem VolatilityResultConverter_construction_raises_TypeError:
  "VolatilityResultConverter_call (Some VolatilityHandle_mapping)
     (Some ''ExportedVolatilityHandle'') [None] =
     Inl (TypeError ''__init__() takes exactly 1 argument'')
   \<and> VolatilityResultConverter_call (Some VolatilityHandle_mapping)
       (Some ''ExportedVolatilityHandle'') [Some default_ExportOptions] =
     Inl (TypeError ''__init__() takes exactly 1 argument'')
   \<and> VolatilityResultConverter_call (Some VolatilityHandle_mapping)
       (Some ''ExportedVolatilityHandle'') [] =
     Inr \<lparr>vrc_options = default_ExportOptions, vrc_mapping = VolatilityHandle_mapping,
          vrc_output_rdf_cls = ''ExportedVolatilityHandle''\<rparr>"
  by (simp add: VolatilityResultConverter_call_def VolatilityResultConverter_init_def
      VolatilityHandle_mapping_def)

text \<open>
  The body of \<^verbatim>\<open>__init__\<close>, which a call without arguments reaches: \<^verbatim>\<open>ValueError\<close>
  when the mapping is \<^verbatim>\<open>None\<close> or empty or the output record class is \<^verbatim>\<open>None\<close>, the
  converter otherwise. A call with any argument raises \<^verbatim>\<open>TypeError\<close> whatever the
  values are.
\<close>

lemma VolatilityResultConverter_init_result:
  "((mapping = None \<or> mapping = Some [] \<or> output_rdf_cls = None) \<longrightarrow>
      (\<exists>msg. VolatilityResultConverter_init mapping output_rdf_cls = Inl (ValueError msg)))
   \<and> (\<forall>m c. mapping = Some m \<and> m \<noteq> [] \<and> output_rdf_cls = Some c \<longrightarrow>
        VolatilityResultConverter_init mapping output_rdf_cls =
          Inr \<lparr>vrc_options = default_ExportOptions, vrc_mapping = m, vrc_output_rdf_cls = c\<rparr>)"
  by (auto simp: VolatilityResultConverter_init_def split: option.splits)

lemma VolatilityResultConverter_call_with_arguments:
  "args \<noteq> [] \<Longrightarrow>
   VolatilityResultConverter_call mapping output_rdf_cls args =
     Inl (TypeError ''__init__() takes exactly 1 argument'')"
  by (simp add: VolatilityResultConverter_call_def)

lemma VolatilityResultConverter_call_without_arguments:
  "VolatilityResultConverter_call mapping output_rdf_cls [] =
     VolatilityResultConverter_init mapping output_rdf_cls"
  by (simp add: VolatilityResultConverter_call_def)


lemma mset_concat_map_append:
  "mset (concat (map (\<lambda>p. a p @ b p) xs)) =
   mset (concat (map a xs)) + mset (concat (map b xs))"
  by (induction xs) auto

lemma mset_concat_swap:
  "mset (concat (map (\<lambda>c. concat (map (s c) grp)) cs)) =
   mset (concat (map (\<lambda>p. concat (map (\<lambda>c. s c p) cs)) grp))"
proof (induction cs)
  case Nil
  show ?case by (induction grp) auto
next
  case (Cons c cs)
  have "mset (concat (map (\<lambda>p. concat (map (\<lambda>c. s c p) (c # cs))) grp)) =
        mset (concat (map (\<lambda>p. s c p @ concat (map (\<lambda>c. s c p) cs)) grp))"
    by simp
  also have "\<dots> = mset (concat (map (s c) grp)) +
                  mset (concat (map (\<lambda>p. concat (map (\<lambda>c. s c p) cs)) grp))"
    by (rule mset_concat_map_append)
  finally show ?case using Cons.IH by simp
qed

lemma mset_concat_map_cong:
  "mset xs = mset ys \<Longrightarrow> mset (concat (map f xs)) = mset (concat (map f ys))"
proof -
  assume e: "mset xs = mset ys"
  have "\<And>zs. mset (concat (map f zs)) = sum_mset (image_mset (\<lambda>z. mset (f z)) (mset zs))"
    by (induct_tac zs) auto
  with e show ?thesis by simp
qed

lemma mset_concat_concat:
  "mset (concat (map f (concat xss))) = mset (concat (map (\<lambda>xs. concat (map f xs)) xss))"
  by (induction xss) auto

lemma grouped_members:
  assumes "grouped key d xs" and "(k, ys) \<in> set d"
  shows "ys = filter (\<lambda>x. key x = k) xs"
proof -
  from assms have dist: "distinct (map fst d)" by (simp add: grouped_def)
  with assms(2) have m: "map_of d k = Some ys" by simp
  from assms(2) have "k \<in> set (map fst d)" by force
  with assms(1) have "k \<in> key ` set xs" by (simp add: grouped_def)
  with assms(1) have "map_of d k = Some (filter (\<lambda>x. key x = k) xs)"
    unfolding grouped_def by blast
  with m show ?thesis by simp
qed

lemma grouped_mset:
  assumes "grouped key d xs"
  shows "mset (concat (map snd d)) = mset xs"
proof -
  from assms have dist: "distinct (map fst d)" and keys: "set (map fst d) = key ` set xs"
    by (auto simp: grouped_def)
  have ms: "map snd d = map (\<lambda>k. filter (\<lambda>x. key x = k) xs) (map fst d)"
    unfolding map_map comp_def
    by (intro map_cong) (auto dest: grouped_members[OF assms])
  have A: "mset (concat (map (\<lambda>k. filter (\<lambda>p. key p = k) xs) (map fst d))) =
           mset (filter (\<lambda>p. key p \<in> set (map fst d)) xs)"
    using mset_concat_groups[OF dist, of "\<lambda>x. x" key xs] by simp
  have B: "filter (\<lambda>x. key x \<in> set (map fst d)) xs = xs"
    unfolding keys by (induction xs) auto
  show ?thesis unfolding ms A B ..
qed

lemma mset_concat_map_pointwise:
  "\<forall>g \<in> set gs. mset (f g) = mset (h g) \<Longrightarrow>
   mset (concat (map f gs)) = mset (concat (map h gs))"
  by (induction gs) auto

lemma GetConvertersByValue_class_name:
  "class_name v = class_name w \<Longrightarrow> GetConvertersByValue classes v = GetConvertersByValue classes w"
  by (simp add: GetConvertersByValue_def)


lemma per_record_on_mono: "P' \<subseteq> P \<Longrightarrow> per_record_on P c \<Longrightarrow> per_record_on P' c"
  unfolding per_record_on_def by blast

lemma convertible_mono:
  assumes "P' \<subseteq> P" and "convertible classes options P p"
  shows "convertible classes options P' p"
proof -
  have sub: "{q \<in> P'. class_name (snd q) = class_name (snd p)} \<subseteq>
             {q \<in> P. class_name (snd q) = class_name (snd p)}"
    using assms(1) by blast
  have "\<And>cls. (case init cls options of Inl e \<Rightarrow> False
               | Inr c \<Rightarrow> per_record_on {q \<in> P. class_name (snd q) = class_name (snd p)} c) \<Longrightarrow>
              (case init cls options of Inl e \<Rightarrow> False
               | Inr c \<Rightarrow> per_record_on {q \<in> P'. class_name (snd q) = class_name (snd p)} c)"
    using per_record_on_mono[OF sub] by (auto split: sum.splits)
  with assms(2) show ?thesis unfolding convertible_def by blast
qed

lemma construct_all_ok:
  assumes "\<forall>cls \<in> set cs. case init cls options of Inl e \<Rightarrow> False | Inr c \<Rightarrow> Q c"
  shows "construct_all cs options = Inr (map (\<lambda>cls. projr (init cls options)) cs)"
  using assms by (induction cs) (auto split: sum.splits)

lemma run_converters_per_record:
  assumes "\<forall>c \<in> set cs. per_record_on P c" and "set grp \<subseteq> P"
  shows "run_converters cs grp =
           (concat (map (\<lambda>c. concat (map (\<lambda>p. fst (iterate (BatchConvert c [p]))) grp)) cs), None)"
  using assms(1)
proof (induction cs)
  case Nil
  then show ?case by simp
next
  case (Cons c cs)
  then have pc: "per_record_on P c" and rest: "\<forall>c \<in> set cs. per_record_on P c" by auto
  from pc assms(2) have b: "BatchConvert c grp =
      Inr (concat (map (\<lambda>p. fst (iterate (BatchConvert c [p]))) grp), None)"
    unfolding per_record_on_def by blast
  show ?case using Cons.IH[OF rest] by (simp add: b)
qed

lemma group_result_per_record:
  assumes grp: "grp \<noteq> []"
    and same: "\<forall>p \<in> set grp. class_name (snd p) = k"
    and sub: "set grp \<subseteq> P"
    and conv: "\<forall>p \<in> set grp. convertible classes options P p"
  shows "snd (group_result classes options (k, grp)) = None"
    and "mset (fst (group_result classes options (k, grp))) =
         mset (concat (map (record_outputs classes options) grp))"
    and "\<not> unmatched classes (k, grp)"
proof -
  from grp obtain m v rest where g: "grp = (m, v) # rest" by (cases grp) auto
  let ?CS = "GetConvertersByValue classes v"
  let ?P = "{q \<in> P. class_name (snd q) = k}"
  from same g have kv: "class_name v = k" by simp
  from conv g have cv: "convertible classes options P (m, v)" by simp
  then have ne: "?CS \<noteq> []"
    and all: "\<forall>cls \<in> set ?CS. case init cls options of Inl e \<Rightarrow> False
                                 | Inr c \<Rightarrow> per_record_on ?P c"
    using kv unfolding convertible_def snd_conv by auto
  from same sub have inP: "set grp \<subseteq> ?P" by blast
  let ?conv = "\<lambda>cls. projr (init cls options)"
  have ca: "construct_all ?CS options = Inr (map ?conv ?CS)" by (rule construct_all_ok[OF all])
  have pr: "\<forall>c \<in> set (map ?conv ?CS). per_record_on ?P c"
  proof
    fix c assume "c \<in> set (map ?conv ?CS)"
    then obtain cls where cls: "cls \<in> set ?CS" "c = ?conv cls" by auto
    with all show "per_record_on ?P c" by (cases "init cls options") auto
  qed
  have gr: "group_result classes options (k, grp) =
      (concat (map (\<lambda>c. concat (map (\<lambda>p. fst (iterate (BatchConvert c [p]))) grp))
                 (map ?conv ?CS)), None)"
    using ca run_converters_per_record[OF pr inP] by (simp add: group_result_def g)
  show "snd (group_result classes options (k, grp)) = None" by (simp add: gr)
  show "\<not> unmatched classes (k, grp)" using ne by (simp add: unmatched_def g)
  have CSp: "\<And>p. p \<in> set grp \<Longrightarrow> GetConvertersByValue classes (snd p) = ?CS"
  proof -
    fix p assume "p \<in> set grp"
    with same have "class_name (snd p) = k" by blast
    with kv show "GetConvertersByValue classes (snd p) = ?CS"
      by (intro GetConvertersByValue_class_name) simp
  qed
  have ro: "\<And>p. p \<in> set grp \<Longrightarrow> record_outputs classes options p =
      concat (map (\<lambda>cls. fst (iterate (BatchConvert (?conv cls) [p]))) ?CS)"
  proof -
    fix p assume p: "p \<in> set grp"
    have "\<And>cls. cls \<in> set ?CS \<Longrightarrow>
        (case init cls options of Inl e \<Rightarrow> [] | Inr c \<Rightarrow> fst (iterate (BatchConvert c [p]))) =
        fst (iterate (BatchConvert (?conv cls) [p]))"
    proof -
      fix cls assume "cls \<in> set ?CS"
      with all show "(case init cls options of Inl e \<Rightarrow> []
                      | Inr c \<Rightarrow> fst (iterate (BatchConvert c [p]))) =
        fst (iterate (BatchConvert (?conv cls) [p]))"
        by (cases "init cls options") auto
    qed
    then show "record_outputs classes options p =
      concat (map (\<lambda>cls. fst (iterate (BatchConvert (?conv cls) [p]))) ?CS)"
      unfolding record_outputs_def CSp[OF p]
      by (intro arg_cong[where f=concat] map_cong) auto
  qed
  have "mset (fst (group_result classes options (k, grp))) =
      mset (concat (map (\<lambda>cls. concat (map (\<lambda>p. fst (iterate (BatchConvert (?conv cls) [p]))) grp))
                 ?CS))"
    by (simp add: gr comp_def)
  also have "\<dots> = mset (concat (map (\<lambda>p. concat (map (\<lambda>cls.
                       fst (iterate (BatchConvert (?conv cls) [p]))) ?CS)) grp))"
    by (rule mset_concat_swap)
  also have "map (\<lambda>p. concat (map (\<lambda>cls. fst (iterate (BatchConvert (?conv cls) [p]))) ?CS)) grp =
             map (record_outputs classes options) grp"
    by (intro map_cong) (auto simp: ro)
  finally show "mset (fst (group_result classes options (k, grp))) =
         mset (concat (map (record_outputs classes options) grp))" .
qed

lemma engine_per_record:
  assumes conv: "\<forall>p \<in> set ps. convertible classes options P p" and sub: "set ps \<subseteq> P"
  shows "snd (ConvertValuesWithMetadata classes ps options) = None"
    and "mset (fst (ConvertValuesWithMetadata classes ps options)) =
         mset (concat (map (record_outputs classes options) ps))"
proof -
  let ?key = "\<lambda>pair::ExportedMetadata \<times> rdf_value. class_name (snd pair)"
  let ?gs = "GroupBy ps ?key"
  have g: "grouped ?key ?gs ps" by (rule GroupBy_grouped)
  have ne: "\<forall>g \<in> set ?gs. snd g \<noteq> []" by (rule GroupBy_nonempty)
  have each: "\<And>k grp. (k, grp) \<in> set ?gs \<Longrightarrow>
      snd (group_result classes options (k, grp)) = None \<and>
      mset (fst (group_result classes options (k, grp))) =
         mset (concat (map (record_outputs classes options) grp)) \<and>
      \<not> unmatched classes (k, grp)"
  proof -
    fix k grp assume in_gs: "(k, grp) \<in> set ?gs"
    from grouped_members[OF g in_gs] have grp: "grp = filter (\<lambda>x. ?key x = k) ps" .
    from ne in_gs have n: "grp \<noteq> []" by force
    from grp have same: "\<forall>p \<in> set grp. class_name (snd p) = k" by auto
    from grp sub have s: "set grp \<subseteq> P" by auto
    from grp conv have c: "\<forall>p \<in> set grp. convertible classes options P p" by auto
    from group_result_per_record[OF n same s c]
    show "snd (group_result classes options (k, grp)) = None \<and>
      mset (fst (group_result classes options (k, grp))) =
         mset (concat (map (record_outputs classes options) grp)) \<and>
      \<not> unmatched classes (k, grp)" by blast
  qed
  have ok: "\<forall>g \<in> set ?gs. \<not> unmatched classes g \<longrightarrow> snd (group_result classes options g) = None"
    using each by auto
  have um: "filter (unmatched classes) ?gs = []"
    using each by (auto simp: filter_empty_conv)
  have mm: "filter (\<lambda>g. \<not> unmatched classes g) ?gs = ?gs"
    using each by (auto simp: filter_id_conv)
  have R: "ConvertValuesWithMetadata classes ps options =
      (concat (map (\<lambda>g. fst (group_result classes options g)) ?gs), None)"
    unfolding ConvertValuesWithMetadata_def
    using convert_groups_gen[OF ne ok, of None] by (simp add: um mm)
  show "snd (ConvertValuesWithMetadata classes ps options) = None" by (simp add: R)
  have "mset (concat (map (\<lambda>g. fst (group_result classes options g)) ?gs)) =
        mset (concat (map (\<lambda>g. concat (map (record_outputs classes options) (snd g))) ?gs))"
    using each by (intro mset_concat_map_pointwise) auto
  also have "\<dots> = mset (concat (map (record_outputs classes options) (concat (map snd ?gs))))"
    by (simp add: mset_concat_concat comp_def)
  also have "\<dots> = mset (concat (map (record_outputs classes options) ps))"
    by (rule mset_concat_map_cong) (rule grouped_mset[OF g])
  finally show "mset (fst (ConvertValuesWithMetadata classes ps options)) =
         mset (concat (map (record_outputs classes options) ps))"
    by (simp add: R)
qed

lemma convert_batches_complete:
  assumes "\<forall>b \<in> set bs. snd (ConvertValues classes md b options) = None"
  shows "convert_batches classes options md bs =
           (concat (map (\<lambda>b. fst (ConvertValues classes md b options)) bs), None)"
  using assms by (induction bs) (auto simp: gen_then_None)

lemma ConvertValues_per_record:
  assumes "\<forall>v \<in> set vs. convertible classes options P (md, v)"
    and "(\<lambda>v. (md, v)) ` set vs \<subseteq> P"
  shows "snd (ConvertValues classes md vs options) = None"
    and "mset (fst (ConvertValues classes md vs options)) =
         mset (concat (map (\<lambda>v. record_outputs classes options (md, v)) vs))"
proof -
  let ?ps = "map (\<lambda>obj. (md, obj)) vs"
  have c: "\<forall>p \<in> set ?ps. convertible classes options P p" using assms(1) by auto
  have s: "set ?ps \<subseteq> P" using assms(2) by auto
  from engine_per_record(1)[OF c s]
  show "snd (ConvertValues classes md vs options) = None" by (simp add: ConvertValues_def)
  from engine_per_record(2)[OF c s]
  show "mset (fst (ConvertValues classes md vs options)) =
         mset (concat (map (\<lambda>v. record_outputs classes options (md, v)) vs))"
    by (simp add: ConvertValues_def comp_def)
qed


lemma GroupBy_uniform:
  assumes "xs \<noteq> []" and "\<forall>x \<in> set xs. key x = k"
  shows "GroupBy xs key = [(k, xs)]"
proof -
  let ?d = "GroupBy xs key"
  have g: "grouped key ?d xs" by (rule GroupBy_grouped)
  then have dist: "distinct (map fst ?d)" and keys: "set (map fst ?d) = key ` set xs"
    by (auto simp: grouped_def)
  from assms have "key ` set xs = {k}" by (cases xs) auto
  with keys have sk: "set (map fst ?d) = {k}" by simp
  have "card (set (map fst ?d)) = length (map fst ?d)"
    using dist by (rule distinct_card)
  with sk have "length ?d = 1" by simp
  then obtain x where x: "?d = [x]" by (cases ?d) auto
  with sk have "fst x = k" by simp
  with x obtain ys where d: "?d = [(k, ys)]" by (cases x) auto
  then have "(k, ys) \<in> set ?d" by simp
  from grouped_members[OF g this] have "ys = filter (\<lambda>x. key x = k) xs" .
  with assms(2) have "ys = xs" by (simp add: filter_id_conv)
  with d show ?thesis by simp
qed

lemma as_StatEntry_pairs_map:
  "as_StatEntry_pairs (map (\<lambda>s. (md, StatEntryV s)) ses) = Inr (map (\<lambda>s. (md, s)) ses)"
  by (induction ses) auto

lemma concat_replicate_single: "concat (replicate n [x]) = replicate n x"
  by (induction n) auto

lemma gen_then_Nil: "gen_then g ([], None) = g"
  by (cases g; cases "snd g") auto

lemma convert_single_group:
  assumes "grp = (m, v) # rest" and "GetConvertersByValue classes v = cs" and "cs \<noteq> []"
    and "construct_all cs options = Inr convs"
  shows "convert_groups classes options [(k, grp)] None = run_converters convs grp"
  using assms by (simp add: gen_then_Nil)

lemma File_converter_init:
  "\<exists>c. init (StatEntryToExportedFileConverter_class sha256_hexdigest store) options = Inr c \<and>
       (\<forall>ps. BatchConvert c ps =
          Inr (case as_StatEntry_pairs ps of
                 Inl e \<Rightarrow> ([], Some e)
               | Inr sps \<Rightarrow>
                   StatEntryToExportedFileConverter_BatchConvert
                     (options_or_default options) sha256_hexdigest store sps))"
  by (simp add: StatEntryToExportedFileConverter_class_def)

lemma RegistryKey_converter_init:
  "\<exists>c. init StatEntryToExportedRegistryKeyConverter_class options = Inr c \<and>
       (\<forall>ps. BatchConvert c ps =
          Inr (ExportConverter_BatchConvert
                 (\<lambda>metadata v.
                    case v of
                      StatEntryV stat_entry \<Rightarrow>
                        StatEntryToExportedRegistryKeyConverter_Convert metadata stat_entry
                    | _ \<Rightarrow> Inl (AttributeError ''HasField''))
                 ps))"
  by (simp add: StatEntryToExportedRegistryKeyConverter_class_def)

lemma as_StatEntry_pairs_map_pairs:
  "as_StatEntry_pairs (map (\<lambda>(m, s). (m, StatEntryV s)) sps) = Inr sps"
  by (induction sps) auto

lemma StatEntry_pairs_ex:
  "\<forall>p \<in> set ps. \<exists>s. snd p = StatEntryV s \<Longrightarrow> \<exists>sps. ps = map (\<lambda>(m, s). (m, StatEntryV s)) sps"
proof (induction ps)
  case Nil
  then show ?case by simp
next
  case (Cons p ps)
  then obtain sps where sps: "ps = map (\<lambda>(m, s). (m, StatEntryV s)) sps" by auto
  from Cons.prems obtain m s where "p = (m, StatEntryV s)" by (cases p) auto
  with sps have "p # ps = map (\<lambda>(m, s). (m, StatEntryV s)) ((m, s) # sps)" by simp
  then show ?case by (rule exI)
qed

lemma File_BatchConvert_default:
  "StatEntryToExportedFileConverter_BatchConvert default_ExportOptions sha256_hexdigest store sps =
     (map (\<lambda>(m, s). ExportedFileV (new_ExportedFile m s))
        (filter (\<lambda>(m, s). registry_type s = None) sps), None)"
  by (simp add: StatEntryToExportedFileConverter_BatchConvert_def default_ExportOptions_def Let_def)

lemma File_converter_per_record:
  assumes P: "\<forall>p \<in> P. \<exists>s. snd p = StatEntryV s"
    and c: "init (StatEntryToExportedFileConverter_class sha256_hexdigest store)
              (Some default_ExportOptions) = Inr c"
  shows "per_record_on P c"
proof -
  have ood: "options_or_default (Some default_ExportOptions) = default_ExportOptions"
    by (simp add: options_or_default_def)
  from File_converter_init[of sha256_hexdigest store "Some default_ExportOptions"] c
  have bc: "\<And>ps. BatchConvert c ps =
          Inr (case as_StatEntry_pairs ps of
                 Inl e \<Rightarrow> ([], Some e)
               | Inr sps \<Rightarrow>
                   StatEntryToExportedFileConverter_BatchConvert
                     default_ExportOptions sha256_hexdigest store sps)"
    unfolding ood by auto
  have run: "\<And>sps. BatchConvert c (map (\<lambda>(m, s). (m, StatEntryV s)) sps) =
      Inr (map (\<lambda>(m, s). ExportedFileV (new_ExportedFile m s))
             (filter (\<lambda>(m, s). registry_type s = None) sps), None)"
    unfolding bc as_StatEntry_pairs_map_pairs by (simp add: File_BatchConvert_default)
  have one: "\<And>m s. fst (iterate (BatchConvert c [(m, StatEntryV s)])) =
      (if registry_type s = None then [ExportedFileV (new_ExportedFile m s)] else [])"
    using run[of "[(m, s)]" for m s] by simp
  have cc: "\<And>sps. concat (map (\<lambda>p. fst (iterate (BatchConvert c [p])))
                        (map (\<lambda>(m, s). (m, StatEntryV s)) sps)) =
      map (\<lambda>(m, s). ExportedFileV (new_ExportedFile m s))
             (filter (\<lambda>(m, s). registry_type s = None) sps)"
  proof -
    fix sps :: "(ExportedMetadata \<times> StatEntry) list"
    show "concat (map (\<lambda>p. fst (iterate (BatchConvert c [p])))
                        (map (\<lambda>(m, s). (m, StatEntryV s)) sps)) =
      map (\<lambda>(m, s). ExportedFileV (new_ExportedFile m s))
             (filter (\<lambda>(m, s). registry_type s = None) sps)"
      by (induction sps) (auto simp: one)
  qed
  show ?thesis
    unfolding per_record_on_def
  proof (intro allI impI)
    fix ps :: pairs assume "set ps \<subseteq> P"
    with P have "\<forall>p \<in> set ps. \<exists>s. snd p = StatEntryV s" by blast
    from StatEntry_pairs_ex[OF this] obtain sps
      where ps: "ps = map (\<lambda>(m, s). (m, StatEntryV s)) sps" by blast
    show "BatchConvert c ps =
        Inr (concat (map (\<lambda>p. fst (iterate (BatchConvert c [p]))) ps), None)"
      unfolding ps run cc ..
  qed
qed

lemma RegistryKey_converter_per_record:
  assumes P: "\<forall>p \<in> P. \<exists>s. snd p = StatEntryV s \<and>
                snd (iterate (StatEntryToExportedRegistryKeyConverter_Convert (fst p) s)) = None"
    and c: "init StatEntryToExportedRegistryKeyConverter_class options = Inr c"
  shows "per_record_on P c"
proof -
  let ?Conv = "\<lambda>metadata v. case v of
                   StatEntryV stat_entry \<Rightarrow>
                     StatEntryToExportedRegistryKeyConverter_Convert metadata stat_entry
                 | _ \<Rightarrow> Inl (AttributeError ''HasField'')"
  from RegistryKey_converter_init[of options] c
  have bc: "\<And>ps. BatchConvert c ps = Inr (ExportConverter_BatchConvert ?Conv ps)"
    by auto
  have one: "\<And>m v. fst (iterate (BatchConvert c [(m, v)])) = fst (iterate (?Conv m v))"
    unfolding bc by (simp add: gen_then_Nil)
  show ?thesis
    unfolding per_record_on_def
  proof (intro allI impI)
    fix ps :: pairs assume sub: "set ps \<subseteq> P"
    have h: "\<forall>(m, v) \<in> set ps. snd (iterate (?Conv m v)) = None"
    proof (clarify)
      fix m v assume "(m, v) \<in> set ps"
      with sub P obtain s where "v = StatEntryV s"
        "snd (iterate (StatEntryToExportedRegistryKeyConverter_Convert m s)) = None" by force
      then show "snd (iterate (?Conv m v)) = None" by simp
    qed
    have A: "BatchConvert c ps =
        Inr (concat (map (\<lambda>(m, v). fst (iterate (?Conv m v))) ps), None)"
      unfolding bc BatchConvert_default_concat[OF h] ..
    have B: "map (\<lambda>p. fst (iterate (BatchConvert c [p]))) ps =
          map (\<lambda>(m, v). fst (iterate (?Conv m v))) ps"
      by (intro map_cong) (auto simp: one)
    show "BatchConvert c ps =
        Inr (concat (map (\<lambda>p. fst (iterate (BatchConvert c [p]))) ps), None)"
      unfolding A B ..
  qed
qed

lemma StatEntry_classes_lookup:
  "GetConvertersByValue StatEntry_classes_File_first (StatEntryV s) = StatEntry_classes_File_first"
  "GetConvertersByValue StatEntry_classes_RegistryKey_first (StatEntryV s) =
     StatEntry_classes_RegistryKey_first"
  by (simp_all add: GetConvertersByValue_def StatEntry_classes_File_first_def
      StatEntry_classes_RegistryKey_first_def
      StatEntryToExportedFileConverter_class_def StatEntryToExportedRegistryKeyConverter_class_def)

lemma StatEntry_convertible:
  assumes P: "\<forall>p \<in> P. \<exists>s. snd p = StatEntryV s \<and>
                snd (iterate (StatEntryToExportedRegistryKeyConverter_Convert (fst p) s)) = None"
    and p: "snd p = StatEntryV s"
  shows "convertible StatEntry_classes_File_first (Some default_ExportOptions) P p"
    and "convertible StatEntry_classes_RegistryKey_first (Some default_ExportOptions) P p"
proof -
  let ?P = "{q \<in> P. class_name (snd q) = class_name (snd p)}"
  have P1: "\<forall>p \<in> ?P. \<exists>s. snd p = StatEntryV s" using P by blast
  have P2: "\<forall>p \<in> ?P. \<exists>s. snd p = StatEntryV s \<and>
                snd (iterate (StatEntryToExportedRegistryKeyConverter_Convert (fst p) s)) = None"
    using P by blast
  obtain c1 where c1: "init (StatEntryToExportedFileConverter_class id Map.empty)
              (Some default_ExportOptions) = Inr c1"
    using File_converter_init by blast
  obtain c2 where c2: "init StatEntryToExportedRegistryKeyConverter_class
              (Some default_ExportOptions) = Inr c2"
    using RegistryKey_converter_init by blast
  note f = File_converter_per_record[OF P1 c1]
  note r = RegistryKey_converter_per_record[OF P2 c2]
  show "convertible StatEntry_classes_File_first (Some default_ExportOptions) P p"
    unfolding convertible_def p StatEntry_classes_lookup
    using f r by (simp add: StatEntry_classes_File_first_def c1 c2 p)
  show "convertible StatEntry_classes_RegistryKey_first (Some default_ExportOptions) P p"
    unfolding convertible_def p StatEntry_classes_lookup
    using f r by (simp add: StatEntry_classes_RegistryKey_first_def c1 c2 p)
qed

lemma ConvertValues_StatEntry:
  assumes ne: "ses \<noteq> []"
    and ok: "\<forall>s \<in> set ses.
               snd (iterate (StatEntryToExportedRegistryKeyConverter_Convert md s)) = None"
  shows "ConvertValues StatEntry_classes_File_first md (map StatEntryV ses)
             (Some default_ExportOptions) =
           (map (\<lambda>s. ExportedFileV (new_ExportedFile md s))
              (filter (\<lambda>s. registry_type s = None) ses) @
            concat (map (\<lambda>s. fst (iterate (StatEntryToExportedRegistryKeyConverter_Convert md s)))
                     ses), None)"
    and "ConvertValues StatEntry_classes_RegistryKey_first md (map StatEntryV ses)
             (Some default_ExportOptions) =
           (concat (map (\<lambda>s. fst (iterate (StatEntryToExportedRegistryKeyConverter_Convert md s)))
                     ses) @
            map (\<lambda>s. ExportedFileV (new_ExportedFile md s))
              (filter (\<lambda>s. registry_type s = None) ses), None)"
proof -
  let ?ps = "map (\<lambda>s. (md, StatEntryV s)) ses"
  let ?Conv = "\<lambda>metadata v. case v of
                   StatEntryV stat_entry \<Rightarrow>
                     StatEntryToExportedRegistryKeyConverter_Convert metadata stat_entry
                 | _ \<Rightarrow> Inl (AttributeError ''HasField'')"
  let ?F = "map (\<lambda>s. ExportedFileV (new_ExportedFile md s))
              (filter (\<lambda>s. registry_type s = None) ses)"
  let ?R = "concat (map (\<lambda>s. fst (iterate (StatEntryToExportedRegistryKeyConverter_Convert md s)))
                     ses)"
  obtain c1 where c1: "init (StatEntryToExportedFileConverter_class id Map.empty)
              (Some default_ExportOptions) = Inr c1"
    and b1: "\<And>ps. BatchConvert c1 ps =
          Inr (case as_StatEntry_pairs ps of
                 Inl e \<Rightarrow> ([], Some e)
               | Inr sps \<Rightarrow>
                   StatEntryToExportedFileConverter_BatchConvert
                     (options_or_default (Some default_ExportOptions)) id Map.empty sps)"
    using File_converter_init[of id Map.empty "Some default_ExportOptions"] by blast
  obtain c2 where c2: "init StatEntryToExportedRegistryKeyConverter_class
              (Some default_ExportOptions) = Inr c2"
    and b2: "\<And>ps. BatchConvert c2 ps = Inr (ExportConverter_BatchConvert ?Conv ps)"
    using RegistryKey_converter_init[of "Some default_ExportOptions"] by blast
  from ne obtain s0 rest where ses: "ses = s0 # rest" by (cases ses) auto
  then have ps: "?ps = (md, StatEntryV s0) # map (\<lambda>s. (md, StatEntryV s)) rest" by simp
  have gb: "GroupBy ?ps (\<lambda>pair. class_name (snd pair)) = [(''StatEntry'', ?ps)]"
    by (rule GroupBy_uniform) (use ne in auto)
  have fl: "StatEntryToExportedFileConverter_BatchConvert default_ExportOptions id Map.empty
                (map (\<lambda>s. (md, s)) ses) = (?F, None)"
    by (simp add: File_BatchConvert_default filter_map comp_def)
  have r1: "iterate (BatchConvert c1 ?ps) = (?F, None)"
    unfolding b1 by (simp add: as_StatEntry_pairs_map options_or_default_def fl)
  have h: "\<forall>(m, v) \<in> set ?ps. snd (iterate (?Conv m v)) = None" using ok by auto
  have reg: "ExportConverter_BatchConvert ?Conv ?ps = (?R, None)"
    using BatchConvert_default_concat[OF h] by (simp add: comp_def)
  have r2: "iterate (BatchConvert c2 ?ps) = (?R, None)"
    unfolding b2 by (simp add: reg)
  have run12: "run_converters [c1, c2] ?ps = (?F @ ?R, None)"
    unfolding run_converters.simps r1 r2 by simp
  have run21: "run_converters [c2, c1] ?ps = (?R @ ?F, None)"
    unfolding run_converters.simps r1 r2 by simp
  have ca12: "construct_all StatEntry_classes_File_first (Some default_ExportOptions) =
                Inr [c1, c2]"
    by (simp add: StatEntry_classes_File_first_def c1 c2)
  have ca21: "construct_all StatEntry_classes_RegistryKey_first (Some default_ExportOptions) =
                Inr [c2, c1]"
    by (simp add: StatEntry_classes_RegistryKey_first_def c1 c2)
  have nn12: "StatEntry_classes_File_first \<noteq> []"
    by (simp add: StatEntry_classes_File_first_def)
  have nn21: "StatEntry_classes_RegistryKey_first \<noteq> []"
    by (simp add: StatEntry_classes_RegistryKey_first_def)
  have "ConvertValues StatEntry_classes_File_first md (map StatEntryV ses)
          (Some default_ExportOptions) =
        convert_groups StatEntry_classes_File_first (Some default_ExportOptions)
          [(''StatEntry'', ?ps)] None"
    unfolding ConvertValues_def Let_def ConvertValuesWithMetadata_def map_map comp_def gb ..
  also have "\<dots> = run_converters [c1, c2] ?ps"
    by (rule convert_single_group[OF ps StatEntry_classes_lookup(1) nn12 ca12])
  finally show "ConvertValues StatEntry_classes_File_first md (map StatEntryV ses)
             (Some default_ExportOptions) = (?F @ ?R, None)"
    unfolding run12 .
  have "ConvertValues StatEntry_classes_RegistryKey_first md (map StatEntryV ses)
          (Some default_ExportOptions) =
        convert_groups StatEntry_classes_RegistryKey_first (Some default_ExportOptions)
          [(''StatEntry'', ?ps)] None"
    unfolding ConvertValues_def Let_def ConvertValuesWithMetadata_def map_map comp_def gb ..
  also have "\<dots> = run_converters [c2, c1] ?ps"
    by (rule convert_single_group[OF ps StatEntry_classes_lookup(2) nn21 ca21])
  finally show "ConvertValues StatEntry_classes_RegistryKey_first md (map StatEntryV ses)
             (Some default_ExportOptions) = (?R @ ?F, None)"
    unfolding run21 .
qed


lemma reg_convert0:
  "StatEntryToExportedRegistryKeyConverter_Convert md0 stat_entry_registry =
     Inr ([exported_registry_key0], None)"
  by (simp add: StatEntryToExportedRegistryKeyConverter_Convert_def stat_entry_registry_def
      exported_registry_key0_def st0_def)

lemma reg_convert_file0:
  "StatEntryToExportedRegistryKeyConverter_Convert md0 stat_entry_file = Inr ([], None)"
  by (simp add: StatEntryToExportedRegistryKeyConverter_Convert_def stat_entry_file_def)

lemma registry_types0:
  "registry_type stat_entry_file = None" "registry_type stat_entry_registry \<noteq> None"
  by (simp_all add: stat_entry_file_def stat_entry_registry_def)

lemma exported_differ0: "exported_registry_key0 \<noteq> exported_file0"
  by (simp add: exported_registry_key0_def exported_file0_def)

lemma batches_two:
  assumes "2 \<le> n" and "length xs = n"
  shows "Grouper (xs @ [a, b]) n = [xs, [a, b]]"
proof -
  have a: "Grouper (xs @ [a, b]) n = take n (xs @ [a, b]) # Grouper (drop n (xs @ [a, b])) n"
    using assms by (subst Grouper.simps) simp
  have b: "Grouper [a, b] n = [[a, b]]"
    using assms by (intro Grouper_single) simp_all
  show ?thesis unfolding a using b assms by simp
qed

lemma first_batch_n:
  "ConvertValues StatEntry_classes_File_first md0
     (StatEntryV stat_entry_file # replicate n (StatEntryV stat_entry_registry))
     (Some default_ExportOptions) = (exported_file0 # replicate n exported_registry_key0, None)"
  "ConvertValues StatEntry_classes_RegistryKey_first md0
     (StatEntryV stat_entry_file # replicate n (StatEntryV stat_entry_registry))
     (Some default_ExportOptions) = (replicate n exported_registry_key0 @ [exported_file0], None)"
proof -
  let ?ses = "stat_entry_file # replicate n stat_entry_registry"
  have r: "StatEntryV stat_entry_file # replicate n (StatEntryV stat_entry_registry) =
           map StatEntryV ?ses" by simp
  have ne: "?ses \<noteq> []" by simp
  have ok: "\<forall>s \<in> set ?ses.
               snd (iterate (StatEntryToExportedRegistryKeyConverter_Convert md0 s)) = None"
    by (auto simp: reg_convert0 reg_convert_file0)
  have f: "filter (\<lambda>s. registry_type s = None) ?ses = [stat_entry_file]"
    by (simp add: registry_types0)
  have g: "concat (map (\<lambda>s. fst (iterate (StatEntryToExportedRegistryKeyConverter_Convert md0 s)))
             ?ses) = replicate n exported_registry_key0"
    by (simp add: reg_convert0 reg_convert_file0 concat_replicate_single)
  show "ConvertValues StatEntry_classes_File_first md0
     (StatEntryV stat_entry_file # replicate n (StatEntryV stat_entry_registry))
     (Some default_ExportOptions) = (exported_file0 # replicate n exported_registry_key0, None)"
    unfolding r ConvertValues_StatEntry(1)[OF ne ok] f g by (simp add: exported_file0_def)
  show "ConvertValues StatEntry_classes_RegistryKey_first md0
     (StatEntryV stat_entry_file # replicate n (StatEntryV stat_entry_registry))
     (Some default_ExportOptions) = (replicate n exported_registry_key0 @ [exported_file0], None)"
    unfolding r ConvertValues_StatEntry(2)[OF ne ok] f g by (simp add: exported_file0_def)
qed

lemma second_batch:
  "ConvertValues StatEntry_classes_File_first md0
     [StatEntryV stat_entry_file, StatEntryV stat_entry_registry]
     (Some default_ExportOptions) = ([exported_file0, exported_registry_key0], None)"
  "ConvertValues StatEntry_classes_RegistryKey_first md0
     [StatEntryV stat_entry_file, StatEntryV stat_entry_registry]
     (Some default_ExportOptions) = ([exported_registry_key0, exported_file0], None)"
  using first_batch_n[of 1] by simp_all

lemma unbatched_n:
  "ConvertValues StatEntry_classes_File_first md0
     (StatEntryV stat_entry_file # replicate n (StatEntryV stat_entry_registry) @
      [StatEntryV stat_entry_file, StatEntryV stat_entry_registry])
     (Some default_ExportOptions) =
     (exported_file0 # exported_file0 # replicate (Suc n) exported_registry_key0, None)"
  "ConvertValues StatEntry_classes_RegistryKey_first md0
     (StatEntryV stat_entry_file # replicate n (StatEntryV stat_entry_registry) @
      [StatEntryV stat_entry_file, StatEntryV stat_entry_registry])
     (Some default_ExportOptions) =
     (replicate (Suc n) exported_registry_key0 @ [exported_file0, exported_file0], None)"
proof -
  let ?ses = "stat_entry_file # replicate n stat_entry_registry @
              [stat_entry_file, stat_entry_registry]"
  have r: "StatEntryV stat_entry_file # replicate n (StatEntryV stat_entry_registry) @
      [StatEntryV stat_entry_file, StatEntryV stat_entry_registry] = map StatEntryV ?ses" by simp
  have ne: "?ses \<noteq> []" by simp
  have ok: "\<forall>s \<in> set ?ses.
               snd (iterate (StatEntryToExportedRegistryKeyConverter_Convert md0 s)) = None"
    by (auto simp: reg_convert0 reg_convert_file0)
  have f: "filter (\<lambda>s. registry_type s = None) ?ses = [stat_entry_file, stat_entry_file]"
    by (simp add: registry_types0)
  have g: "concat (map (\<lambda>s. fst (iterate (StatEntryToExportedRegistryKeyConverter_Convert md0 s)))
             ?ses) = replicate (Suc n) exported_registry_key0"
    by (simp add: reg_convert0 reg_convert_file0 concat_replicate_single replicate_append_same)
  show "ConvertValues StatEntry_classes_File_first md0
     (StatEntryV stat_entry_file # replicate n (StatEntryV stat_entry_registry) @
      [StatEntryV stat_entry_file, StatEntryV stat_entry_registry])
     (Some default_ExportOptions) =
     (exported_file0 # exported_file0 # replicate (Suc n) exported_registry_key0, None)"
    unfolding r ConvertValues_StatEntry(1)[OF ne ok] f g by (simp add: exported_file0_def)
  show "ConvertValues StatEntry_classes_RegistryKey_first md0
     (StatEntryV stat_entry_file # replicate n (StatEntryV stat_entry_registry) @
      [StatEntryV stat_entry_file, StatEntryV stat_entry_registry])
     (Some default_ExportOptions) =
     (replicate (Suc n) exported_registry_key0 @ [exported_file0, exported_file0], None)"
    unfolding r ConvertValues_StatEntry(2)[OF ne ok] f g by (simp add: exported_file0_def)
qed

lemma batched_n:
  assumes "1 \<le> n"
  shows "RDFValueCollectionConverter_Convert StatEntry_classes_File_first (Suc n)
       default_ExportOptions md0
       (StatEntryV stat_entry_file # replicate n (StatEntryV stat_entry_registry) @
        [StatEntryV stat_entry_file, StatEntryV stat_entry_registry]) =
     (exported_file0 # replicate n exported_registry_key0 @
      [exported_file0, exported_registry_key0], None)"
    and "RDFValueCollectionConverter_Convert StatEntry_classes_RegistryKey_first (Suc n)
       default_ExportOptions md0
       (StatEntryV stat_entry_file # replicate n (StatEntryV stat_entry_registry) @
        [StatEntryV stat_entry_file, StatEntryV stat_entry_registry]) =
     (replicate n exported_registry_key0 @
      [exported_file0, exported_registry_key0, exported_file0], None)"
proof -
  let ?xs = "StatEntryV stat_entry_file # replicate n (StatEntryV stat_entry_registry)"
  have n2: "2 \<le> Suc n" using assms by simp
  have l: "length ?xs = Suc n" by simp
  have G: "Grouper (StatEntryV stat_entry_file # replicate n (StatEntryV stat_entry_registry) @
        [StatEntryV stat_entry_file, StatEntryV stat_entry_registry]) (Suc n) =
      [?xs, [StatEntryV stat_entry_file, StatEntryV stat_entry_registry]]"
    using batches_two[OF n2 l] by simp
  show "RDFValueCollectionConverter_Convert StatEntry_classes_File_first (Suc n)
       default_ExportOptions md0
       (StatEntryV stat_entry_file # replicate n (StatEntryV stat_entry_registry) @
        [StatEntryV stat_entry_file, StatEntryV stat_entry_registry]) =
     (exported_file0 # replicate n exported_registry_key0 @
      [exported_file0, exported_registry_key0], None)"
    unfolding RDFValueCollectionConverter_Convert_def G
    by (simp add: first_batch_n second_batch)
  show "RDFValueCollectionConverter_Convert StatEntry_classes_RegistryKey_first (Suc n)
       default_ExportOptions md0
       (StatEntryV stat_entry_file # replicate n (StatEntryV stat_entry_registry) @
        [StatEntryV stat_entry_file, StatEntryV stat_entry_registry]) =
     (replicate n exported_registry_key0 @
      [exported_file0, exported_registry_key0, exported_file0], None)"
    unfolding RDFValueCollectionConverter_Convert_def G
    by (simp add: first_batch_n second_batch)
qed

lemma differ_n:
  assumes "1 \<le> n"
  shows "exported_file0 # replicate n exported_registry_key0 @
           [exported_file0, exported_registry_key0] \<noteq>
         exported_file0 # exported_file0 # replicate (Suc n) exported_registry_key0"
    and "replicate n exported_registry_key0 @
           [exported_file0, exported_registry_key0, exported_file0] \<noteq>
         replicate (Suc n) exported_registry_key0 @ [exported_file0, exported_file0]"
proof -
  from assms obtain k where n: "n = Suc k" by (cases n) auto
  show "exported_file0 # replicate n exported_registry_key0 @
           [exported_file0, exported_registry_key0] \<noteq>
         exported_file0 # exported_file0 # replicate (Suc n) exported_registry_key0"
    unfolding n using exported_differ0 by simp
  show "replicate n exported_registry_key0 @
           [exported_file0, exported_registry_key0, exported_file0] \<noteq>
         replicate (Suc n) exported_registry_key0 @ [exported_file0, exported_file0]"
    using exported_differ0 by (simp add: replicate_append_same[symmetric] del: replicate_Suc)
qed


lemma foldl_group_insert_replicate:
  "key u = k \<Longrightarrow>
   foldl (\<lambda>key_map item. group_insert (key item) item key_map) ((k, xs) # rest) (replicate n u) =
     (k, xs @ replicate n u) # rest"
proof (induction n arbitrary: xs)
  case 0
  then show ?case by simp
next
  case (Suc n)
  from Suc.IH[OF Suc.prems, of "xs @ [u]"] Suc.prems show ?case
    by (simp add: replicate_app_Cons_same)
qed

lemma GroupBy_replicate_then_one:
  assumes "key u \<noteq> key c"
  shows "GroupBy (replicate (Suc n) u @ [c]) key = [(key u, replicate (Suc n) u), (key c, [c])]"
proof -
  have "foldl (\<lambda>key_map item. group_insert (key item) item key_map) [] (replicate (Suc n) u) =
        [(key u, [u] @ replicate n u)]"
    using foldl_group_insert_replicate[of key u "key u" "[u]" "[]" n] by simp
  then show ?thesis using assms unfolding GroupBy_def foldl_append by simp
qed

lemma ClientSummary_lookup:
  "GetConvertersByValue [ClientSummaryToExportedClientConverter_class] (OtherV ''Unknown'' s) = []"
  "GetConvertersByValue [ClientSummaryToExportedClientConverter_class]
     (OtherV ''ClientSummary'' s) = [ClientSummaryToExportedClientConverter_class]"
  by (simp_all add: GetConvertersByValue_def ClientSummaryToExportedClientConverter_class_def)

lemma unknown_batch_n:
  "ConvertValues [ClientSummaryToExportedClientConverter_class] md0
     (replicate (Suc n) (OtherV ''Unknown'' ''u'')) (Some default_ExportOptions) =
   ([], Some (NoConverterFound (OtherV ''Unknown'' ''u'')))"
proof -
  let ?ps = "replicate (Suc n) (md0, OtherV ''Unknown'' ''u'')"
  have gb: "GroupBy ?ps (\<lambda>pair. class_name (snd pair)) = [(''Unknown'', ?ps)]"
    by (rule GroupBy_uniform) auto
  show ?thesis
    unfolding ConvertValues_def Let_def ConvertValuesWithMetadata_def map_replicate gb
    by (simp add: ClientSummary_lookup)
qed

lemma unknown_batched_n:
  "RDFValueCollectionConverter_Convert [ClientSummaryToExportedClientConverter_class] (Suc n)
     default_ExportOptions md0
     (replicate (Suc n) (OtherV ''Unknown'' ''u'') @ [OtherV ''ClientSummary'' ''a'']) =
   ([], Some (NoConverterFound (OtherV ''Unknown'' ''u'')))"
proof -
  have G: "Grouper (replicate (Suc n) (OtherV ''Unknown'' ''u'') @ [OtherV ''ClientSummary'' ''a''])
             (Suc n) =
           take (Suc n) (replicate (Suc n) (OtherV ''Unknown'' ''u'') @ [OtherV ''ClientSummary'' ''a''])
           # Grouper (drop (Suc n) (replicate (Suc n) (OtherV ''Unknown'' ''u'') @
                                    [OtherV ''ClientSummary'' ''a''])) (Suc n)"
    by (subst Grouper.simps) simp
  have t: "take (Suc n) (replicate (Suc n) (OtherV ''Unknown'' ''u'') @ [OtherV ''ClientSummary'' ''a''])
           = replicate (Suc n) (OtherV ''Unknown'' ''u'')"
    by simp
  show ?thesis
    unfolding RDFValueCollectionConverter_Convert_def G t
    by (simp add: unknown_batch_n del: replicate_Suc replicate.simps)
qed

lemma unknown_unbatched_n:
  "ConvertValues [ClientSummaryToExportedClientConverter_class] md0
     (replicate (Suc n) (OtherV ''Unknown'' ''u'') @ [OtherV ''ClientSummary'' ''a''])
     (Some default_ExportOptions) =
   ([ExportedClientV md0], Some (NoConverterFound (OtherV ''Unknown'' ''u'')))"
proof -
  let ?u = "(md0, OtherV ''Unknown'' ''u'')"
  let ?c = "(md0, OtherV ''ClientSummary'' ''a'')"
  have k: "class_name (snd ?u) \<noteq> class_name (snd ?c)" by simp
  have m: "map (\<lambda>obj. (md0, obj))
             (replicate (Suc n) (OtherV ''Unknown'' ''u'') @ [OtherV ''ClientSummary'' ''a'']) =
           replicate (Suc n) ?u @ [?c]" by simp
  have gb: "GroupBy (replicate (Suc n) ?u @ [?c]) (\<lambda>pair. class_name (snd pair)) =
            [(''Unknown'', replicate (Suc n) ?u), (''ClientSummary'', [?c])]"
    using GroupBy_replicate_then_one[of "\<lambda>pair. class_name (snd pair)" ?u ?c n] by simp
  show ?thesis
    unfolding ConvertValues_def Let_def ConvertValuesWithMetadata_def m gb
    by (simp add: ClientSummary_lookup ClientSummary_class_init
        ClientSummaryToExportedClientConverter_Convert_def)
qed


text \<open>
  A collection of 1002 entries, converted with the two \<^verbatim>\<open>StatEntry\<close> converters and the
  default batch size: a file entry and 999 registry entries fill the first sub-batch, a
  file entry and a registry entry are the second. The order of the two converters is that
  of a dictionary's values, so both orders are taken. With the file converter first the
  batched conversion yields file, 999 keys, file, key, and one pass over the whole
  collection yields the two files and then the thousand keys; with the registry converter
  first the batched conversion yields 999 keys, file, key, file, and one pass yields the
  thousand keys and then the two files. A collection of a thousand values without
  converter followed by one \<^verbatim>\<open>ClientSummary\<close>: the batched conversion raises in the first
  sub-batch and yields nothing, while one pass yields the exported client before it
  raises.
\<close>

theorem RDFValueCollectionConverter_order_counterexample:
  "RDFValueCollectionConverter_Convert StatEntry_classes_File_first BATCH_SIZE
       default_ExportOptions md0 collection1002 =
     (exported_file0 # replicate 999 exported_registry_key0 @
      [exported_file0, exported_registry_key0], None)
   \<and> ConvertValues StatEntry_classes_File_first md0 collection1002 (Some default_ExportOptions) =
     (exported_file0 # exported_file0 # replicate 1000 exported_registry_key0, None)
   \<and> RDFValueCollectionConverter_Convert StatEntry_classes_File_first BATCH_SIZE
       default_ExportOptions md0 collection1002 \<noteq>
     ConvertValues StatEntry_classes_File_first md0 collection1002 (Some default_ExportOptions)
   \<and> RDFValueCollectionConverter_Convert StatEntry_classes_RegistryKey_first BATCH_SIZE
       default_ExportOptions md0 collection1002 =
     (replicate 999 exported_registry_key0 @
      [exported_file0, exported_registry_key0, exported_file0], None)
   \<and> ConvertValues StatEntry_classes_RegistryKey_first md0 collection1002
       (Some default_ExportOptions) =
     (replicate 1000 exported_registry_key0 @ [exported_file0, exported_file0], None)
   \<and> RDFValueCollectionConverter_Convert StatEntry_classes_RegistryKey_first BATCH_SIZE
       default_ExportOptions md0 collection1002 \<noteq>
     ConvertValues StatEntry_classes_RegistryKey_first md0 collection1002
       (Some default_ExportOptions)
   \<and> RDFValueCollectionConverter_Convert [ClientSummaryToExportedClientConverter_class] BATCH_SIZE
       default_ExportOptions md0 collection_unknown =
     ([], Some (NoConverterFound (OtherV ''Unknown'' ''u'')))
   \<and> ConvertValues [ClientSummaryToExportedClientConverter_class] md0 collection_unknown
       (Some default_ExportOptions) =
     ([ExportedClientV md0], Some (NoConverterFound (OtherV ''Unknown'' ''u'')))"
proof -
  have p: "1 \<le> (999::nat)" by simp
  have B: "BATCH_SIZE = Suc 999" by (simp add: BATCH_SIZE_def)
  have k: "(1000::nat) = Suc 999" by simp
  have a1: "RDFValueCollectionConverter_Convert StatEntry_classes_File_first BATCH_SIZE
       default_ExportOptions md0 collection1002 =
     (exported_file0 # replicate 999 exported_registry_key0 @
      [exported_file0, exported_registry_key0], None)"
    unfolding B collection1002_def by (rule batched_n(1)[OF p])
  have a2: "ConvertValues StatEntry_classes_File_first md0 collection1002
       (Some default_ExportOptions) =
     (exported_file0 # exported_file0 # replicate 1000 exported_registry_key0, None)"
    unfolding k collection1002_def by (rule unbatched_n(1))
  have a3: "RDFValueCollectionConverter_Convert StatEntry_classes_File_first BATCH_SIZE
       default_ExportOptions md0 collection1002 \<noteq>
     ConvertValues StatEntry_classes_File_first md0 collection1002 (Some default_ExportOptions)"
    unfolding a1 a2 k using differ_n(1)[OF p] by simp
  have b1: "RDFValueCollectionConverter_Convert StatEntry_classes_RegistryKey_first BATCH_SIZE
       default_ExportOptions md0 collection1002 =
     (replicate 999 exported_registry_key0 @
      [exported_file0, exported_registry_key0, exported_file0], None)"
    unfolding B collection1002_def by (rule batched_n(2)[OF p])
  have b2: "ConvertValues StatEntry_classes_RegistryKey_first md0 collection1002
       (Some default_ExportOptions) =
     (replicate 1000 exported_registry_key0 @ [exported_file0, exported_file0], None)"
    unfolding k collection1002_def by (rule unbatched_n(2))
  have b3: "RDFValueCollectionConverter_Convert StatEntry_classes_RegistryKey_first BATCH_SIZE
       default_ExportOptions md0 collection1002 \<noteq>
     ConvertValues StatEntry_classes_RegistryKey_first md0 collection1002
       (Some default_ExportOptions)"
    unfolding b1 b2 k using differ_n(2)[OF p] by simp
  have c1: "RDFValueCollectionConverter_Convert [ClientSummaryToExportedClientConverter_class]
       BATCH_SIZE default_ExportOptions md0 collection_unknown =
     ([], Some (NoConverterFound (OtherV ''Unknown'' ''u'')))"
    unfolding B k collection_unknown_def by (rule unknown_batched_n)
  have c2: "ConvertValues [ClientSummaryToExportedClientConverter_class] md0 collection_unknown
       (Some default_ExportOptions) =
     ([ExportedClientV md0], Some (NoConverterFound (OtherV ''Unknown'' ''u'')))"
    unfolding k collection_unknown_def by (rule unknown_unbatched_n)
  from a1 a2 a3 b1 b2 b3 c1 c2 show ?thesis by (intro conjI) assumption+
qed

text \<open>
  C4, amended. For a positive batch size the collection is split into consecutive
  sub-batches of that size, the last one holding the rest (2500 records and size 1000
  give sub-batches of 1000, 1000 and 500). The engine is run on one sub-batch after the
  other with the same metadata on every member, and as long as no run raises, the
  converter yields the concatenation of the runs' outputs. When every record of the
  collection has converters, each of which is constructed without raising and converts
  every batch of the collection's records of that record's class record by record without
  raising, neither the batched conversion nor one pass over the whole collection raises
  and both yield the same outputs with the same multiplicities, in an order that may
  differ; the two are equal when the collection fits into one sub-batch.
\<close>

theorem RDFValueCollectionConverter_Convert_batched:
  assumes "0 < batch_size"
  shows "concat (Grouper collection batch_size) = collection
   \<and> length (Grouper collection batch_size) = (length collection + batch_size - 1) div batch_size
   \<and> (\<forall>i. i < length (Grouper collection batch_size) \<longrightarrow>
          Grouper collection batch_size ! i = take batch_size (drop (i * batch_size) collection))
   \<and> (length collection = 2500 \<and> batch_size = 1000 \<longrightarrow>
          map length (Grouper collection batch_size) = [1000, 1000, 500])
   \<and> ((\<forall>b \<in> set (Grouper collection batch_size).
          snd (ConvertValuesWithMetadata classes (map (\<lambda>v. (metadata, v)) b) (Some options)) = None)
        \<longrightarrow> RDFValueCollectionConverter_Convert classes batch_size options metadata collection =
              (concat (map (\<lambda>b. fst (ConvertValuesWithMetadata classes
                                        (map (\<lambda>v. (metadata, v)) b) (Some options)))
                         (Grouper collection batch_size)), None))
   \<and> ((\<forall>v \<in> set collection.
          convertible classes (Some options) ((\<lambda>v. (metadata, v)) ` set collection) (metadata, v))
        \<longrightarrow> snd (RDFValueCollectionConverter_Convert classes batch_size options metadata collection)
              = None
            \<and> snd (ConvertValues classes metadata collection (Some options)) = None
            \<and> mset (fst (RDFValueCollectionConverter_Convert classes batch_size options metadata
                           collection)) =
              mset (fst (ConvertValues classes metadata collection (Some options))))
   \<and> (length collection \<le> batch_size
        \<longrightarrow> RDFValueCollectionConverter_Convert classes batch_size options metadata collection =
            ConvertValues classes metadata collection (Some options))"
proof -
  let ?bs = "Grouper collection batch_size"
  let ?C = "RDFValueCollectionConverter_Convert classes batch_size options metadata collection"
  let ?CV = "\<lambda>b. ConvertValues classes metadata b (Some options)"
  let ?P = "(\<lambda>v. (metadata, v)) ` set collection"
  have cb: "?C = convert_batches classes (Some options) metadata ?bs"
  proof (cases "collection = []")
    case True
    have "Grouper ([] :: rdf_value list) batch_size = []" by (subst Grouper.simps) simp
    with True show ?thesis by (simp add: RDFValueCollectionConverter_Convert_def)
  next
    case False
    then show ?thesis by (simp add: RDFValueCollectionConverter_Convert_def)
  qed
  have cvw: "\<And>b. ConvertValuesWithMetadata classes (map (\<lambda>v. (metadata, v)) b) (Some options) = ?CV b"
    by (simp add: ConvertValues_def)
  have c1: "concat ?bs = collection" by (rule Grouper_concat[OF assms])
  have c2: "length ?bs = (length collection + batch_size - 1) div batch_size"
    by (rule Grouper_length[OF assms])
  have c3: "\<forall>i. i < length ?bs \<longrightarrow> ?bs ! i = take batch_size (drop (i * batch_size) collection)"
    using Grouper_nth[OF assms] by blast
  have c4: "length collection = 2500 \<and> batch_size = 1000 \<longrightarrow> map length ?bs = [1000, 1000, 500]"
    using Grouper_2500 by blast
  have c5: "(\<forall>b \<in> set ?bs.
          snd (ConvertValuesWithMetadata classes (map (\<lambda>v. (metadata, v)) b) (Some options)) = None)
        \<longrightarrow> ?C = (concat (map (\<lambda>b. fst (ConvertValuesWithMetadata classes
                                        (map (\<lambda>v. (metadata, v)) b) (Some options))) ?bs), None)"
  proof
    assume "\<forall>b \<in> set ?bs.
          snd (ConvertValuesWithMetadata classes (map (\<lambda>v. (metadata, v)) b) (Some options)) = None"
    then have "\<forall>b \<in> set ?bs. snd (?CV b) = None" unfolding cvw .
    from convert_batches_complete[OF this]
    show "?C = (concat (map (\<lambda>b. fst (ConvertValuesWithMetadata classes
                                        (map (\<lambda>v. (metadata, v)) b) (Some options))) ?bs), None)"
      unfolding cb cvw .
  qed
  have c6: "(\<forall>v \<in> set collection. convertible classes (Some options) ?P (metadata, v))
        \<longrightarrow> snd ?C = None \<and> snd (?CV collection) = None
            \<and> mset (fst ?C) = mset (fst (?CV collection))"
  proof
    assume conv: "\<forall>v \<in> set collection. convertible classes (Some options) ?P (metadata, v)"
    have whole: "(\<lambda>v. (metadata, v)) ` set collection \<subseteq> ?P" by simp
    have sub: "\<And>b. b \<in> set ?bs \<Longrightarrow> set b \<subseteq> set collection"
    proof -
      fix b assume "b \<in> set ?bs"
      then have "set b \<subseteq> set (concat ?bs)" by auto
      then show "set b \<subseteq> set collection" unfolding c1 .
    qed
    have each: "\<And>b. b \<in> set ?bs \<Longrightarrow> snd (?CV b) = None \<and>
        mset (fst (?CV b)) =
          mset (concat (map (\<lambda>v. record_outputs classes (Some options) (metadata, v)) b))"
    proof -
      fix b assume b: "b \<in> set ?bs"
      with sub conv have cb': "\<forall>v \<in> set b. convertible classes (Some options) ?P (metadata, v)"
        by blast
      from sub[OF b] have sb: "(\<lambda>v. (metadata, v)) ` set b \<subseteq> ?P" by blast
      from ConvertValues_per_record[OF cb' sb] show "snd (?CV b) = None \<and>
        mset (fst (?CV b)) =
          mset (concat (map (\<lambda>v. record_outputs classes (Some options) (metadata, v)) b))"
        by blast
    qed
    then have all: "\<forall>b \<in> set ?bs. snd (?CV b) = None" by blast
    from convert_batches_complete[OF all]
    have C: "?C = (concat (map (\<lambda>b. fst (?CV b)) ?bs), None)" unfolding cb .
    have "mset (fst ?C) = mset (concat (map (\<lambda>b. fst (?CV b)) ?bs))" by (simp add: C)
    also have "\<dots> = mset (concat (map (\<lambda>b. concat
                 (map (\<lambda>v. record_outputs classes (Some options) (metadata, v)) b)) ?bs))"
      using each by (intro mset_concat_map_pointwise) blast
    also have "\<dots> = mset (concat (map (\<lambda>v. record_outputs classes (Some options) (metadata, v))
                                   (concat ?bs)))"
      by (simp add: mset_concat_concat)
    also have "\<dots> = mset (fst (?CV collection))"
      unfolding c1 using ConvertValues_per_record(2)[OF conv whole] by simp
    finally have m: "mset (fst ?C) = mset (fst (?CV collection))" .
    from C have "snd ?C = None" by simp
    with m ConvertValues_per_record(1)[OF conv whole]
    show "snd ?C = None \<and> snd (?CV collection) = None \<and> mset (fst ?C) = mset (fst (?CV collection))"
      by blast
  qed
  have c7: "length collection \<le> batch_size \<longrightarrow> ?C = ?CV collection"
  proof
    assume le: "length collection \<le> batch_size"
    show "?C = ?CV collection"
    proof (cases "collection = []")
      case True
      then show ?thesis
        by (simp add: RDFValueCollectionConverter_Convert_def ConvertValues_def
            ConvertValuesWithMetadata_def GroupBy_def)
    next
      case False
      from Grouper_single[OF assms False le] have "?bs = [collection]" .
      then show ?thesis unfolding cb by (simp add: gen_then_Nil)
    qed
  qed
  from c1 c2 c3 c4 c5 c6 c7 show ?thesis by (intro conjI) assumption+
qed

lemma collection4_convertible:
  "\<forall>v \<in> set collection4.
     convertible StatEntry_classes_File_first (Some default_ExportOptions)
       ((\<lambda>v. (md0, v)) ` set collection4) (md0, v)"
proof
  fix v assume v: "v \<in> set collection4"
  let ?P = "(\<lambda>v. (md0, v)) ` set collection4"
  have P: "\<forall>p \<in> ?P. \<exists>s. snd p = StatEntryV s \<and>
                snd (iterate (StatEntryToExportedRegistryKeyConverter_Convert (fst p) s)) = None"
    by (simp add: collection4_def reg_convert0 reg_convert_file0)
  from v obtain s where s: "snd (md0, v) = StatEntryV s" by (auto simp: collection4_def)
  show "convertible StatEntry_classes_File_first (Some default_ExportOptions) ?P (md0, v)"
    by (rule StatEntry_convertible(1)[OF P s])
qed

lemma collection4_batches:
  "Grouper collection4 2 =
     [[StatEntryV stat_entry_file, StatEntryV stat_entry_registry],
      [StatEntryV stat_entry_file, StatEntryV stat_entry_registry]]"
  unfolding collection4_def
  using batches_two[of 2 "[StatEntryV stat_entry_file, StatEntryV stat_entry_registry]"
          "StatEntryV stat_entry_file" "StatEntryV stat_entry_registry"]
  by simp

lemma collection4_unbatched:
  "ConvertValues StatEntry_classes_File_first md0 collection4 (Some default_ExportOptions) =
     ([exported_file0, exported_file0, exported_registry_key0, exported_registry_key0], None)"
  unfolding collection4_def using unbatched_n(1)[of 1] by simp

text \<open>
  The theorem at work: 2500 records and the default batch size give sub-batches of 1000,
  1000 and 500. Four entries (file, registry, file, registry) and the two \<^verbatim>\<open>StatEntry\<close>
  converters, which read the entries: with batch size 2 the collection converter yields
  file, key, file, key, the concatenation of the two runs, while one pass yields file,
  file, key, key, the same records in another order; with the default batch size the two
  are equal.
\<close>

theorem RDFValueCollectionConverter_Convert_batched_witness:
  "0 < (2::nat) \<and> 0 < BATCH_SIZE
   \<and> map length (Grouper (replicate 2500 (StatEntryV stat_entry_file)) BATCH_SIZE) =
       [1000, 1000, 500]
   \<and> RDFValueCollectionConverter_Convert StatEntry_classes_File_first 2
        default_ExportOptions md0 collection4 =
       (concat (map (\<lambda>b. fst (ConvertValuesWithMetadata StatEntry_classes_File_first
                                 (map (\<lambda>v. (md0, v)) b) (Some default_ExportOptions)))
                  (Grouper collection4 2)), None)
   \<and> RDFValueCollectionConverter_Convert StatEntry_classes_File_first 2
        default_ExportOptions md0 collection4 =
       ([exported_file0, exported_registry_key0, exported_file0, exported_registry_key0], None)
   \<and> mset (fst (RDFValueCollectionConverter_Convert StatEntry_classes_File_first 2
                 default_ExportOptions md0 collection4)) =
     mset [exported_file0, exported_file0, exported_registry_key0, exported_registry_key0]
   \<and> RDFValueCollectionConverter_Convert StatEntry_classes_File_first BATCH_SIZE
        default_ExportOptions md0 collection4 =
       ([exported_file0, exported_file0, exported_registry_key0, exported_registry_key0], None)"
proof -
  let ?cs = "StatEntry_classes_File_first"
  let ?o = default_ExportOptions
  have p2: "0 < (2::nat)" by simp
  have pB: "0 < BATCH_SIZE" by (simp add: BATCH_SIZE_def)
  note conv = collection4_convertible
  note T2 = RDFValueCollectionConverter_Convert_batched[OF p2, of collection4 ?cs md0 ?o]
  note TB = RDFValueCollectionConverter_Convert_batched[OF pB, of collection4 ?cs md0 ?o]
  note TR = RDFValueCollectionConverter_Convert_batched
              [OF pB, of "replicate 2500 (StatEntryV stat_entry_file)" ?cs md0 ?o]
  have l: "length (replicate 2500 (StatEntryV stat_entry_file)) = 2500 \<and> BATCH_SIZE = 1000"
    by (simp add: BATCH_SIZE_def)
  from TR[THEN conjunct2, THEN conjunct2, THEN conjunct2, THEN conjunct1, THEN mp, OF l]
  have c4: "map length (Grouper (replicate 2500 (StatEntryV stat_entry_file)) BATCH_SIZE) =
       [1000, 1000, 500]" .
  have cvw: "\<And>b. ConvertValuesWithMetadata ?cs (map (\<lambda>v. (md0, v)) b) (Some ?o) =
                 ConvertValues ?cs md0 b (Some ?o)"
    by (simp add: ConvertValues_def)
  have h5: "\<forall>b \<in> set (Grouper collection4 2).
      snd (ConvertValuesWithMetadata ?cs (map (\<lambda>v. (md0, v)) b) (Some ?o)) = None"
    unfolding collection4_batches cvw by (simp add: second_batch)
  from T2[THEN conjunct2, THEN conjunct2, THEN conjunct2, THEN conjunct2, THEN conjunct1,
          THEN mp, OF h5]
  have c5: "RDFValueCollectionConverter_Convert ?cs 2 ?o md0 collection4 =
       (concat (map (\<lambda>b. fst (ConvertValuesWithMetadata ?cs (map (\<lambda>v. (md0, v)) b) (Some ?o)))
                  (Grouper collection4 2)), None)" .
  have c5': "RDFValueCollectionConverter_Convert ?cs 2 ?o md0 collection4 =
       ([exported_file0, exported_registry_key0, exported_file0, exported_registry_key0], None)"
    unfolding c5 collection4_batches cvw by (simp add: second_batch)
  from T2[THEN conjunct2, THEN conjunct2, THEN conjunct2, THEN conjunct2, THEN conjunct2,
          THEN conjunct1, THEN mp, OF conv]
  have "mset (fst (RDFValueCollectionConverter_Convert ?cs 2 ?o md0 collection4)) =
        mset (fst (ConvertValues ?cs md0 collection4 (Some ?o)))"
    by (rule conjunct2[THEN conjunct2])
  then have c6: "mset (fst (RDFValueCollectionConverter_Convert ?cs 2 ?o md0 collection4)) =
        mset [exported_file0, exported_file0, exported_registry_key0, exported_registry_key0]"
    unfolding collection4_unbatched by simp
  have le: "length collection4 \<le> BATCH_SIZE" by (simp add: collection4_def BATCH_SIZE_def)
  from TB[THEN conjunct2, THEN conjunct2, THEN conjunct2, THEN conjunct2, THEN conjunct2,
          THEN conjunct2, THEN mp, OF le]
  have c7: "RDFValueCollectionConverter_Convert ?cs BATCH_SIZE ?o md0 collection4 =
       ([exported_file0, exported_file0, exported_registry_key0, exported_registry_key0], None)"
    unfolding collection4_unbatched .
  from p2 pB c4 c5 c5' c6 c7 show ?thesis by (intro conjI) assumption+
qed

end
